theory Spec2Isabelle
  imports Main
begin

section \<open>Python values\<close>

subsection \<open>Strings\<close>

text \<open>
  A Python \<open>str\<close> is a sequence of Unicode code points; the scraper replaces
  U+2019 and U+2013, which are no bytes, so a string is a list of code points here.
  \<open>lit\<close> turns an ASCII literal of the source into such a list.
\<close>

type_synonym ustr = "nat list"

definition lit :: "string \<Rightarrow> ustr" where
  "lit s = map of_char s"

text \<open>The code points \<open>str.isspace\<close> accepts; \<open>split()\<close> and \<open>strip()\<close> use them.\<close>

definition py_isspace :: "nat \<Rightarrow> bool" where
  "py_isspace c \<longleftrightarrow>
     (9 \<le> c \<and> c \<le> 13) \<or> (28 \<le> c \<and> c \<le> 32) \<or> c = 133 \<or> c = 160 \<or> c = 5760 \<or>
     (8192 \<le> c \<and> c \<le> 8202) \<or> c = 8232 \<or> c = 8233 \<or> c = 8239 \<or> c = 8287 \<or> c = 12288"

definition py_lstrip :: "ustr \<Rightarrow> ustr" where
  "py_lstrip s = dropWhile py_isspace s"

definition py_rstrip :: "ustr \<Rightarrow> ustr" where
  "py_rstrip s = rev (dropWhile py_isspace (rev s))"

definition py_strip :: "ustr \<Rightarrow> ustr" where
  "py_strip s = py_rstrip (py_lstrip s)"

text \<open>
  \<open>s.split()\<close>: the words between runs of whitespace, none of them empty.
  \<open>cur\<close> is the word being read.
\<close>

fun split_acc :: "ustr \<Rightarrow> ustr \<Rightarrow> ustr list" where
  "split_acc cur [] = (if cur = [] then [] else [cur])"
| "split_acc cur (c # cs) =
     (if py_isspace c then (if cur = [] then split_acc [] cs else cur # split_acc [] cs)
      else split_acc (cur @ [c]) cs)"

definition py_split :: "ustr \<Rightarrow> ustr list" where
  "py_split s = split_acc [] s"

fun py_join :: "ustr \<Rightarrow> ustr list \<Rightarrow> ustr" where
  "py_join sep [] = []"
| "py_join sep [w] = w"
| "py_join sep (w # v # ws) = w @ sep @ py_join sep (v # ws)"

text \<open>\<open>s.replace(old, new)\<close> where \<open>old\<close> and \<open>new\<close> are one character each.\<close>

definition py_replace :: "nat \<Rightarrow> nat \<Rightarrow> ustr \<Rightarrow> ustr" where
  "py_replace old new s = map (\<lambda>c. if c = old then new else c) s"

definition RIGHT_QUOTE :: nat where "RIGHT_QUOTE = 8217"
definition EN_DASH :: nat where "EN_DASH = 8211"
definition APOSTROPHE :: nat where "APOSTROPHE = 39"
definition HYPHEN :: nat where "HYPHEN = 45"

text \<open>\<open>s.split('/')[-1]\<close>: what follows the last slash (the whole string when there is none).\<close>

definition last_segment :: "ustr \<Rightarrow> ustr" where
  "last_segment s = rev (takeWhile (\<lambda>c. c \<noteq> 47) (rev s))"

subsection \<open>JSON values and dicts\<close>

text \<open>
  What \<open>r.json()\<close> returns and what \<open>json.dump\<close> writes. A dict is an association
  list in insertion order; a parsed JSON object has each key once. The numbers of these
  interfaces are integers (the season count); floats are not modelled.
\<close>

datatype json =
    JNull
  | JBool bool
  | JInt int
  | JStr ustr
  | JArr "json list"
  | JObj "(ustr \<times> json) list"

type_synonym dict = "(ustr \<times> json) list"

definition dict_get :: "dict \<Rightarrow> ustr \<Rightarrow> json option" where
  "dict_get d k = map_of d k"

text \<open>\<open>d[k] = v\<close>: an existing key keeps its place, a new key goes to the end.\<close>

fun dict_set :: "dict \<Rightarrow> ustr \<Rightarrow> json \<Rightarrow> dict" where
  "dict_set [] k v = [(k, v)]"
| "dict_set ((k', v') # d) k v = (if k' = k then (k, v) # d else (k', v') # dict_set d k v)"

subsection \<open>Exceptions and process exit\<close>

text \<open>
  \<open>sys.exit(n)\<close> and an exception nobody catches both end the process; the
  interpreter exits with status 1 after an uncaught exception, and with \<open>n\<close> modulo 256
  after \<open>sys.exit(n)\<close>.
\<close>

datatype exc = KeyError | TypeError | AttributeError | IndexError

datatype abort = SysExit int | Uncaught exc

fun exit_status :: "abort \<Rightarrow> int" where
  "exit_status (SysExit n) = n mod 256"
| "exit_status (Uncaught e) = 1"

text \<open>Truth value of a parsed JSON value, as \<open>not x\<close> tests it.\<close>

fun truthy :: "json \<Rightarrow> bool" where
  "truthy JNull = False"
| "truthy (JBool b) = b"
| "truthy (JInt n) = (n \<noteq> 0)"
| "truthy (JStr s) = (s \<noteq> [])"
| "truthy (JArr xs) = (xs \<noteq> [])"
| "truthy (JObj d) = (d \<noteq> [])"

text \<open>\<open>x[key]\<close> with a string key.\<close>

fun subscript :: "json \<Rightarrow> ustr \<Rightarrow> abort + json" where
  "subscript (JObj d) k = (case dict_get d k of None \<Rightarrow> Inl (Uncaught KeyError) | Some v \<Rightarrow> Inr v)"
| "subscript _ k = Inl (Uncaught TypeError)"

text \<open>\<open>x[0]\<close>. The keys of a parsed object are strings, so \<open>0\<close> is never one of them.\<close>

fun index0 :: "json \<Rightarrow> abort + json" where
  "index0 (JArr []) = Inl (Uncaught IndexError)"
| "index0 (JArr (x # xs)) = Inr x"
| "index0 (JStr []) = Inl (Uncaught IndexError)"
| "index0 (JStr (c # cs)) = Inr (JStr [c])"
| "index0 (JObj d) = Inl (Uncaught KeyError)"
| "index0 _ = Inl (Uncaught TypeError)"

text \<open>\<open>x.items()\<close>.\<close>

fun items :: "json \<Rightarrow> abort + dict" where
  "items (JObj d) = Inr d"
| "items _ = Inl (Uncaught AttributeError)"

text \<open>\<open>len(x)\<close>.\<close>

fun py_len :: "json \<Rightarrow> abort + nat" where
  "py_len (JArr xs) = Inr (length xs)"
| "py_len (JStr s) = Inr (length s)"
| "py_len (JObj d) = Inr (length d)"
| "py_len _ = Inl (Uncaught TypeError)"

text \<open>\<open>n != x\<close> for an int \<open>n\<close>: \<open>True\<close> and \<open>False\<close> compare as 1 and 0.\<close>

fun int_ne :: "nat \<Rightarrow> json \<Rightarrow> bool" where
  "int_ne n (JInt m) = (int n \<noteq> m)"
| "int_ne n (JBool b) = (n \<noteq> (if b then 1 else 0))"
| "int_ne n _ = True"

section \<open>Parsed documents\<close>

text \<open>
  A bs4 tree: a \<open>NavigableString\<close> or a \<open>Tag\<close> with name, attributes and contents.
\<close>

datatype node = NavigableString ustr | Element tag
and tag = Tag (name: ustr) (attrs: "(ustr \<times> ustr) list") (contents: "node list")

fun node_text :: "node \<Rightarrow> ustr" and tag_text :: "tag \<Rightarrow> ustr" where
  "node_text (NavigableString s) = s"
| "node_text (Element t) = tag_text t"
| "tag_text (Tag n a cs) = concat (map node_text cs)"

text \<open>\<open>x.name\<close>: \<open>None\<close> for a string.\<close>

fun node_name :: "node \<Rightarrow> ustr option" where
  "node_name (NavigableString s) = None"
| "node_name (Element t) = Some (name t)"

text \<open>\<open>tag[key]\<close>.\<close>

definition attr :: "tag \<Rightarrow> ustr \<Rightarrow> abort + ustr" where
  "attr t k = (case map_of (attrs t) k of None \<Rightarrow> Inl (Uncaught KeyError) | Some v \<Rightarrow> Inr v)"

text \<open>
  The CSS selector engine and the HTML parser are libraries. A parsed page is given by
  what each query of the scraper returns on it, in document order; a query that matches
  nothing returns \<open>None\<close> (\<open>select_one\<close>, \<open>find\<close>) or the empty list (\<open>select\<close>).
\<close>

record piece_li =
  div_jsConcertWork :: "tag option"
  find_h2 :: "tag option"
  find_p :: "tag option"

record soup =
  h1_name :: "tag option"
  div_description :: "tag option"
  div_tabs_1 :: "tag option"
  p_concertMeta :: "tag option"
  p_mainArtist :: "tag option"
  starArtist_name :: "tag list"
  div_concert_support :: "tag option"
  list_lines_li :: "piece_li list"
  li_archive :: "tag list"
  li_item_a :: "tag option list"
  div_margin_15_p :: "tag option"
  div_box_50_strong :: "tag list"
  div_tabs_0 :: "tag option"
  div_tabs_2 :: "tag option"

section \<open>The network, the log and the scraper's state\<close>

text \<open>
  \<open>sess.get(url)\<close> followed by \<open>raise_for_status()\<close> either raises one of the
  exceptions the scraper catches, in the order of its \<open>except\<close> clauses, or gives a
  response. Which statuses raise \<open>HTTPError\<close> is the HTTP library's decision. A response
  is seen through \<open>r.json()\<close> (\<open>None\<close> when it raises \<open>ValueError\<close>), \<open>r.text\<close>
  and \<open>BeautifulSoup(r.content, 'lxml')\<close>. The network answers a URL the same way
  during a run.
\<close>

record response =
  r_json :: "json option"
  r_text :: ustr
  r_soup :: soup

datatype reply =
    HTTPError ustr
  | ConnectionError ustr
  | Timeout
  | RequestException ustr
  | Response response

type_synonym net = "ustr \<Rightarrow> reply"

text \<open>
  A log record: level, the source's format string (a field that is an expression is
  written by its key), the values of its fields.
\<close>

datatype level = DEBUG | INFO | WARNING | ERROR

datatype arg = S ustr | J json | N nat

type_synonym logline = "level \<times> string \<times> arg list"

text \<open>
  The object's fields, and around them what the process does to the world: the log,
  the URLs requested, the files written, the pauses taken.
\<close>

record state =
  data :: "json list"
  concert_id_list :: "ustr list"
  film_id_list :: "ustr list"
  log :: "logline list"
  requests :: "ustr list"
  files :: "(string \<times> json list) list"
  pauses :: nat

type_synonym 'a prog = "state \<Rightarrow> (abort + 'a) \<times> state"

definition return :: "'a \<Rightarrow> 'a prog" where
  "return x = (\<lambda>s. (Inr x, s))"

definition raise :: "abort \<Rightarrow> 'a prog" where
  "raise e = (\<lambda>s. (Inl e, s))"

definition bind :: "'a prog \<Rightarrow> ('a \<Rightarrow> 'b prog) \<Rightarrow> 'b prog" where
  "bind m f = (\<lambda>s. case m s of (Inl e, s') \<Rightarrow> (Inl e, s') | (Inr x, s') \<Rightarrow> f x s')"

definition lift :: "abort + 'a \<Rightarrow> 'a prog" where
  "lift r = (\<lambda>s. (r, s))"

definition say :: "level \<Rightarrow> string \<Rightarrow> arg list \<Rightarrow> unit prog" where
  "say l fmt as = (\<lambda>s. (Inr (), s\<lparr>log := log s @ [(l, fmt, as)]\<rparr>))"

definition fail :: "string \<Rightarrow> arg list \<Rightarrow> 'a prog" where
  "fail fmt as = bind (say ERROR fmt as) (\<lambda>_. raise (SysExit (- 1)))"

definition get :: "net \<Rightarrow> ustr \<Rightarrow> reply prog" where
  "get world url = (\<lambda>s. (Inr (world url), s\<lparr>requests := requests s @ [url]\<rparr>))"

definition sleep :: "unit prog" where
  "sleep = (\<lambda>s. (Inr (), s\<lparr>pauses := Suc (pauses s)\<rparr>))"

section \<open>Stream Resolver\<close>

definition streams_url :: "ustr \<Rightarrow> ustr" where
  "streams_url content_id =
     lit ''https://www.digitalconcerthall.com/json_services/get_stream_urls?id='' @ content_id
     @ lit ''&language=en''"

text \<open>\<open>{ k: v[0]['url'] for k, v in urls.items() }\<close>\<close>

fun manifest :: "dict \<Rightarrow> abort + dict" where
  "manifest [] = Inr []"
| "manifest ((k, v) # kvs) =
     (case index0 v of Inl e \<Rightarrow> Inl e
      | Inr c \<Rightarrow>
        (case subscript c (lit ''url'') of Inl e \<Rightarrow> Inl e
         | Inr u \<Rightarrow>
           (case manifest kvs of Inl e \<Rightarrow> Inl e
            | Inr m \<Rightarrow> Inr ((k, u) # m))))"

definition get_streams :: "net \<Rightarrow> ustr \<Rightarrow> dict prog" where
  "get_streams world content_id =
     bind (say DEBUG ''Getting streams for content with ID {content_id}...'' [S content_id]) (\<lambda>_.
     bind (get world (streams_url content_id)) (\<lambda>r.
     case r of
       HTTPError httpe \<Rightarrow>
         fail ''Get streams for content with ID {content_id} failed with http error: {httpe}''
           [S content_id, S httpe]
     | ConnectionError cerr \<Rightarrow>
         fail ''Get streams for content with ID {content_id} failed with network problems: {cerr}''
           [S content_id, S cerr]
     | Timeout \<Rightarrow>
         fail ''Get streams for content with ID {content_id} timed out!'' [S content_id]
     | RequestException err \<Rightarrow>
         fail ''Get streams for content with ID {content_id} failed with request error: {err}''
           [S content_id, S err]
     | Response r \<Rightarrow>
         (case r_json r of
            None \<Rightarrow>
              fail ''Get streams for content with ID {content_id} returned non-json data: {r.text}''
                [S content_id, S (r_text r)]
          | Some urls_dict \<Rightarrow>
              bind (lift (subscript urls_dict (lit ''success''))) (\<lambda>success.
              if \<not> truthy success then
                bind (lift (subscript urls_dict (lit ''message''))) (\<lambda>message.
                fail ''Get streams failed with message: {message}'' [J message])
              else
                bind (lift (subscript urls_dict (lit ''urls''))) (\<lambda>urls.
                bind (lift (items urls)) (\<lambda>kvs.
                bind (lift (manifest kvs)) (\<lambda>manifest_dict.
                bind (say DEBUG ''Extracted {len(manifest_dict)} streams for content with ID {content_id}''
                        [N (length manifest_dict), S content_id]) (\<lambda>_.
                return manifest_dict))))))))"

section \<open>Season index\<close>

definition seasons_url :: ustr where
  "seasons_url =
     lit ''https://www.digitalconcerthall.com/json_cacheable_services/get_seasons?language=en''"

definition get_seasons :: "net \<Rightarrow> json prog" where
  "get_seasons world =
     bind (say DEBUG ''Getting seasons...'' []) (\<lambda>_.
     bind (get world seasons_url) (\<lambda>r.
     case r of
       HTTPError httpe \<Rightarrow> fail ''Get seasons failed with http error: {httpe}'' [S httpe]
     | ConnectionError cerr \<Rightarrow> fail ''Get seasons failed with network problems: {cerr}'' [S cerr]
     | Timeout \<Rightarrow> fail ''Get seasons timed out!'' []
     | RequestException err \<Rightarrow> fail ''Get seasons failed with request error: {err}'' [S err]
     | Response r \<Rightarrow>
         (case r_json r of
            None \<Rightarrow> fail ''Get seasons returned non-json data: {r.text}'' [S (r_text r)]
          | Some seasons_dict \<Rightarrow>
              bind (lift (subscript seasons_dict (lit ''items''))) (\<lambda>items0.
              bind (lift (py_len items0)) (\<lambda>n.
              bind (lift (subscript seasons_dict (lit ''count''))) (\<lambda>count.
              bind (if int_ne n count
                    then say WARNING ''API returned a season count of {count}, but {len(items)} were found!''
                           [J count, N n]
                    else return ()) (\<lambda>_.
              lift (subscript seasons_dict (lit ''items'')))))))))"

section \<open>Field Extractor\<close>

text \<open>
  \<open>__extract_text\<close>: \<open>' '.join(page_element.text.split())\<close>, and for a string, whose
  \<open>.text\<close> raises \<open>AttributeError\<close>, \<open>' '.join(page_element.split())\<close>.
\<close>

definition collapse :: "ustr \<Rightarrow> ustr" where
  "collapse s = py_join (lit '' '') (py_split s)"

fun extract_text :: "node \<Rightarrow> ustr" where
  "extract_text (Element t) = collapse (tag_text t)"
| "extract_text (NavigableString s) = collapse s"

record artist =
  role :: ustr
  player :: ustr

definition KEINE_ROLLE :: ustr where "KEINE_ROLLE = lit ''KEINE ROLLE''"
definition KEINER :: ustr where "KEINER = lit ''KEINER''"

text \<open>The loop body of \<open>__make_dict\<close>, then the loop from the two defaults.\<close>

definition make_dict_step :: "artist \<Rightarrow> node \<Rightarrow> artist" where
  "make_dict_step ret tag =
     (if node_name tag = Some (lit ''strong'') then ret\<lparr>player := py_strip (node_text tag)\<rparr>
      else if node_name tag = Some (lit ''em'') then ret\<lparr>role := py_strip (node_text tag)\<rparr>
      else ret)"

definition make_dict :: "node list \<Rightarrow> artist" where
  "make_dict groups = foldl make_dict_step \<lparr>role = KEINE_ROLLE, player = KEINER\<rparr> groups"

text \<open>\<open>itertools.groupby\<close>: the maximal runs of neighbours with the same key.\<close>

fun groupby :: "('a \<Rightarrow> 'k) \<Rightarrow> 'a list \<Rightarrow> ('k \<times> 'a list) list" where
  "groupby key [] = []"
| "groupby key (x # xs) =
     (case groupby key xs of
        [] \<Rightarrow> [(key x, [x])]
      | (k, g) # gs \<Rightarrow> if k = key x then (k, x # g) # gs else (key x, [x]) # (k, g) # gs)"

text \<open>
  \<open>str(x).strip() != ','\<close>. The \<open>str\<close> of a tag is its markup, which begins with
  \<open><\<close> and so is never a comma.
\<close>

fun not_comma :: "node \<Rightarrow> bool" where
  "not_comma (NavigableString s) = (py_strip s \<noteq> lit '','')"
| "not_comma (Element t) = True"

text \<open>The groups \<open>g[1]\<close> of the comprehension, those with \<open>g[0]\<close> true.\<close>

definition artist_groups :: "node list \<Rightarrow> node list list" where
  "artist_groups cs = map snd (filter fst (groupby not_comma cs))"

definition artist_list :: "node list \<Rightarrow> artist list" where
  "artist_list cs = map make_dict (artist_groups cs)"

text \<open>The dict \<open>temp\<close> from role to names, in insertion order.\<close>

fun temp_add :: "(ustr \<times> ustr list) list \<Rightarrow> artist \<Rightarrow> (ustr \<times> ustr list) list" where
  "temp_add [] d = [(role d, [player d])]"
| "temp_add ((k, v) # temp) d =
     (if k = role d then (k, v @ [player d]) # temp else (k, v) # temp_add temp d)"

definition fold_roles :: "artist list \<Rightarrow> (ustr \<times> ustr list) list" where
  "fold_roles artistList = foldl temp_add [] artistList"

definition piece_artists :: "artist list \<Rightarrow> json list" where
  "piece_artists artistList =
     map (\<lambda>(k, v). JObj [(lit ''role'', JStr k), (lit ''names'', JArr (map JStr v))])
       (fold_roles artistList)"

text \<open>
  The loop over the contents of the piece's \<open>h2\<close>; \<open>rest\<close> is \<open>headers[idx + 1:]\<close>
  and the \<open>br\<close> branch ends the loop.
\<close>

fun header_loop :: "node list \<Rightarrow> dict \<Rightarrow> dict" where
  "header_loop [] pieceDict = pieceDict"
| "header_loop (tag # rest) pieceDict =
     (if node_name tag = Some (lit ''strong'')
      then header_loop rest (dict_set pieceDict (lit ''composer'') (JStr (py_strip (node_text tag))))
      else if node_name tag = Some (lit ''br'')
      then dict_set pieceDict (lit ''description'') (JStr (py_strip (concat (map extract_text rest))))
      else header_loop rest pieceDict)"

definition header_fields :: "node list \<Rightarrow> dict \<Rightarrow> dict" where
  "header_fields headers pieceDict =
     (let pieceDict = header_loop headers pieceDict in
      if dict_get pieceDict (lit ''composer'') = None \<and> dict_get pieceDict (lit ''description'') = None
      then dict_set pieceDict (lit ''description'') (JStr (py_strip (concat (map extract_text headers))))
      else pieceDict)"

definition artist_fields :: "node list \<Rightarrow> dict \<Rightarrow> dict" where
  "artist_fields cs pieceDict =
     (let artistList = artist_list cs in
      if length artistList \<noteq> 1 \<or> role (artistList ! 0) \<noteq> KEINE_ROLLE
         \<or> player (artistList ! 0) \<noteq> KEINER
      then (let pieceArtists = piece_artists artistList in
            if pieceArtists \<noteq> [] then dict_set pieceDict (lit ''artists'') (JArr pieceArtists)
            else pieceDict)
      else pieceDict)"

section \<open>Concert Normalizer\<close>

text \<open>One turn of the loop over \<open>ul.list-lines > li\<close>; the result is the piece appended.\<close>

definition extract_piece :: "dict \<Rightarrow> piece_li \<Rightarrow> json prog" where
  "extract_piece streams piece =
     bind (lift (case div_jsConcertWork piece of
                   None \<Rightarrow> Inl (Uncaught TypeError)
                 | Some t \<Rightarrow> attr t (lit ''id''))) (\<lambda>concert_piece_id.
     bind (case dict_get streams concert_piece_id of
             Some u \<Rightarrow>
               return [(lit ''pieceId'', JStr concert_piece_id), (lit ''streamUrl'', u)]
           | None \<Rightarrow>
               bind (say WARNING ''No stream url found for concert piece with ID {concert_piece_id}''
                       [S concert_piece_id]) (\<lambda>_.
               return [(lit ''pieceId'', JStr concert_piece_id),
                    (lit ''streamUrl'', JStr (lit ''not-found''))])) (\<lambda>pieceDict.
     bind (lift (case find_h2 piece of
                   None \<Rightarrow> Inl (Uncaught AttributeError)
                 | Some h \<Rightarrow> Inr (contents h))) (\<lambda>headers.
     let pieceDict = header_fields headers pieceDict in
     case find_p piece of
       None \<Rightarrow> return (JObj pieceDict)
     | Some artists \<Rightarrow> return (JObj (artist_fields (contents artists) pieceDict)))))"

fun pieces_loop :: "dict \<Rightarrow> piece_li list \<Rightarrow> json list \<Rightarrow> json list prog" where
  "pieces_loop streams [] pieces = return pieces"
| "pieces_loop streams (piece # rest) pieces =
     bind (extract_piece streams piece) (\<lambda>pieceDict.
     pieces_loop streams rest (pieces @ [pieceDict]))"

text \<open>
  A method of \<open>str\<close> called on an element of \<open>contents\<close>: on a tag the attribute is a
  child lookup that finds nothing, and calling \<open>None\<close> raises \<open>TypeError\<close>.
  \<open>.text\<close> on a string raises \<open>AttributeError\<close>, as \<open>__extract_text\<close> expects.
\<close>

fun str_method :: "node \<Rightarrow> abort + ustr" where
  "str_method (NavigableString s) = Inr s"
| "str_method (Element t) = Inl (Uncaught TypeError)"

fun dot_text :: "node \<Rightarrow> abort + ustr" where
  "dot_text (NavigableString s) = Inl (Uncaught AttributeError)"
| "dot_text (Element t) = Inr (tag_text t)"

definition pbind :: "abort + 'a \<Rightarrow> ('a \<Rightarrow> abort + 'b) \<Rightarrow> abort + 'b" where
  "pbind r f = (case r of Inl e \<Rightarrow> Inl e | Inr x \<Rightarrow> f x)"

definition set_opt :: "dict \<Rightarrow> ustr \<Rightarrow> tag option \<Rightarrow> (tag \<Rightarrow> ustr) \<Rightarrow> dict" where
  "set_opt d k t f = (case t of None \<Rightarrow> d | Some x \<Rightarrow> dict_set d k (JStr (f x)))"

text \<open>
  The part of \<open>__extract_metadata\<close> between the stream lookup and the pieces, in four
  steps: title, programme and guide; date and meta; main artist and conductor; star artists
  and support.
\<close>

definition title_fields :: "ustr \<Rightarrow> soup \<Rightarrow> dict" where
  "title_fields concert_id soup =
     (let metaDict = [(lit ''concertId'', JStr concert_id)];
          metaDict = set_opt metaDict (lit ''concertTitle'') (h1_name soup)
                       (\<lambda>t. py_strip (py_replace RIGHT_QUOTE APOSTROPHE (tag_text t)));
          metaDict = set_opt metaDict (lit ''concertProgramme'') (div_description soup)
                       (\<lambda>t. py_strip (py_replace RIGHT_QUOTE APOSTROPHE (tag_text t)));
          metaDict = set_opt metaDict (lit ''concertProgrammeGuide'') (div_tabs_1 soup)
                       (\<lambda>t. py_strip (py_replace RIGHT_QUOTE APOSTROPHE (tag_text t)))
      in metaDict)"

definition date_fields :: "soup \<Rightarrow> dict \<Rightarrow> abort + dict" where
  "date_fields soup metaDict =
     pbind (case p_concertMeta soup of
              None \<Rightarrow> Inl (Uncaught AttributeError)
            | Some concertMetaTag \<Rightarrow> Inr (contents concertMetaTag)) (\<lambda>metaElms.
     pbind (case metaElms of [] \<Rightarrow> Inl (Uncaught IndexError) | e # _ \<Rightarrow> str_method e) (\<lambda>d.
     let metaDict = dict_set metaDict (lit ''concertDate'')
                      (JStr (py_strip (py_replace EN_DASH HYPHEN d))) in
     if length metaElms = 3
     then pbind (str_method (metaElms ! 2)) (\<lambda>m.
          Inr (dict_set metaDict (lit ''concertMeta'')
                 (JStr (py_replace RIGHT_QUOTE APOSTROPHE (collapse m)))))
     else Inr metaDict))"

definition main_artist_fields :: "soup \<Rightarrow> dict \<Rightarrow> abort + dict" where
  "main_artist_fields soup metaDict =
     pbind (case p_mainArtist soup of
              None \<Rightarrow> Inl (Uncaught AttributeError)
            | Some mainArtistTag \<Rightarrow> Inr (contents mainArtistTag)) (\<lambda>mainElms.
     let metaDict = (case mainElms of
                       [] \<Rightarrow> metaDict
                     | e # _ \<Rightarrow> dict_set metaDict (lit ''mainArtist'') (JStr (py_strip (node_text e))))
     in
     if length mainElms = 3
     then pbind (dot_text (mainElms ! 2)) (\<lambda>c.
          Inr (dict_set metaDict (lit ''conductor'') (JStr (collapse c))))
     else Inr metaDict)"

definition support_fields :: "soup \<Rightarrow> dict \<Rightarrow> dict" where
  "support_fields soup metaDict =
     (let starArtists = starArtist_name soup;
          metaDict = (if length starArtists \<noteq> 0
                      then dict_set metaDict (lit ''starArtists'')
                             (JArr (map (\<lambda>spanTag. JStr (collapse (tag_text spanTag))) starArtists))
                      else metaDict);
          metaDict = set_opt metaDict (lit ''support'') (div_concert_support soup)
                       (\<lambda>t. py_strip (tag_text t))
      in metaDict)"

definition concert_fields :: "ustr \<Rightarrow> soup \<Rightarrow> abort + dict" where
  "concert_fields concert_id soup =
     pbind (date_fields soup (title_fields concert_id soup)) (\<lambda>metaDict.
     pbind (main_artist_fields soup metaDict) (\<lambda>metaDict.
     Inr (support_fields soup metaDict)))"

definition extract_metadata :: "net \<Rightarrow> ustr \<Rightarrow> soup \<Rightarrow> json prog" where
  "extract_metadata world concert_id soup =
     bind (say DEBUG ''Extracting metadata for concert with ID {concert_id}...'' [S concert_id]) (\<lambda>_.
     bind (get_streams world concert_id) (\<lambda>streams.
     bind (lift (concert_fields concert_id soup)) (\<lambda>metaDict.
     bind (pieces_loop streams (list_lines_li soup) []) (\<lambda>pieces.
     return (JObj (dict_set metaDict (lit ''pieces'') (JArr pieces)))))))"

section \<open>Catalog Walker: seasons and concerts\<close>

definition concert_url :: "ustr \<Rightarrow> ustr" where
  "concert_url concert_id = lit ''https://www.digitalconcerthall.com/en/concert/'' @ concert_id"

definition handle_concert :: "net \<Rightarrow> ustr \<Rightarrow> json option prog" where
  "handle_concert world concert_id = (\<lambda>self.
     (if concert_id \<notin> set (concert_id_list self) then
        bind (say DEBUG ''Scraping concert with ID {concert_id}...'' [S concert_id]) (\<lambda>_.
        bind (get world (concert_url concert_id)) (\<lambda>r.
        case r of
          HTTPError httpe \<Rightarrow>
            fail ''Get concert with ID {concert_id} failed with http error: {httpe}''
              [S concert_id, S httpe]
        | ConnectionError cerr \<Rightarrow>
            fail ''Get concert with ID {concert_id} failed with network problems: {cerr}''
              [S concert_id, S cerr]
        | Timeout \<Rightarrow> fail ''Get concert with ID {concert_id} timed out!'' [S concert_id]
        | RequestException err \<Rightarrow>
            fail ''Get concert with ID {concert_id} failed with request error: {err}''
              [S concert_id, S err]
        | Response r \<Rightarrow>
            bind (extract_metadata world concert_id (r_soup r)) (\<lambda>metaDict.
            return (Some metaDict))))
      else
        bind (say DEBUG ''Skipping concert with ID {concert_id} because it already exists''
                [S concert_id]) (\<lambda>_.
        return None)) self)"

text \<open>
  An f-string formats a \<open>str\<close> as it is; \<open>rp\<close> is the interpreter's \<open>str()\<close> of the
  other values.
\<close>

fun py_str :: "(json \<Rightarrow> ustr) \<Rightarrow> json \<Rightarrow> ustr" where
  "py_str rp (JStr s) = s"
| "py_str rp v = rp v"

definition season_url :: "ustr \<Rightarrow> ustr" where
  "season_url season_id = lit ''https://www.digitalconcerthall.com/en/concerts/season_'' @ season_id"

text \<open>\<open>label.replace(...)\<close>: only a \<open>str\<close> has the method.\<close>

fun label_replace :: "json \<Rightarrow> abort + ustr" where
  "label_replace (JStr s) = Inr (py_replace EN_DASH HYPHEN s)"
| "label_replace _ = Inl (Uncaught AttributeError)"

text \<open>
  The loop over \<open>li.archive\<close>; \<open>concerts\<close> is \<open>season_dict['concerts']\<close>. The
  dict a concert gives is never empty, so \<open>if concert_dict\<close> tests for \<open>None\<close>.
\<close>

fun concert_loop :: "net \<Rightarrow> tag list \<Rightarrow> json list \<Rightarrow> json list prog" where
  "concert_loop world [] concerts = return concerts"
| "concert_loop world (concert # rest) concerts =
     bind (lift (attr concert (lit ''id''))) (\<lambda>i.
     bind (handle_concert world (drop 8 i)) (\<lambda>concert_dict.
     bind sleep (\<lambda>_.
     concert_loop world rest
       (case concert_dict of None \<Rightarrow> concerts | Some d \<Rightarrow> concerts @ [d]))))"

definition append_data :: "json \<Rightarrow> unit prog" where
  "append_data x = (\<lambda>self. (Inr (), self\<lparr>data := data self @ [x]\<rparr>))"

definition handle_season :: "(json \<Rightarrow> ustr) \<Rightarrow> net \<Rightarrow> json \<Rightarrow> unit prog" where
  "handle_season rp world season =
     bind (lift (subscript season (lit ''id''))) (\<lambda>season_id.
     bind (lift (subscript season (lit ''label''))) (\<lambda>label.
     bind (say DEBUG ''Scraping season {label} with ID {season_id}...'' [J label, J season_id]) (\<lambda>_.
     bind (get world (season_url (py_str rp season_id))) (\<lambda>r.
     case r of
       HTTPError httpe \<Rightarrow>
         fail ''Get season with ID {season_id} failed with http error: {httpe}'' [J season_id, S httpe]
     | ConnectionError cerr \<Rightarrow>
         fail ''Get season with ID {season_id} failed with network problems: {cerr}''
           [J season_id, S cerr]
     | Timeout \<Rightarrow> fail ''Get season with ID {season_id} timed out!'' [J season_id]
     | RequestException err \<Rightarrow>
         fail ''Get season with ID {season_id} failed with request error: {err}'' [J season_id, S err]
     | Response r \<Rightarrow>
         bind (lift (label_replace label)) (\<lambda>season_label.
         bind (concert_loop world (li_archive (r_soup r)) []) (\<lambda>concerts.
         append_data (JObj [(lit ''seasonId'', season_id), (lit ''season'', JStr season_label),
                            (lit ''concerts'', JArr concerts)])))))))"

text \<open>\<open>for season in all_seasons\<close>: what iterating a parsed JSON value yields.\<close>

fun iterate :: "json \<Rightarrow> abort + json list" where
  "iterate (JArr xs) = Inr xs"
| "iterate (JStr s) = Inr (map (\<lambda>c. JStr [c]) s)"
| "iterate (JObj d) = Inr (map (\<lambda>kv. JStr (fst kv)) d)"
| "iterate _ = Inl (Uncaught TypeError)"

fun season_loop :: "(json \<Rightarrow> ustr) \<Rightarrow> net \<Rightarrow> json list \<Rightarrow> unit prog" where
  "season_loop rp world [] = return ()"
| "season_loop rp world (season # rest) =
     bind (handle_season rp world season) (\<lambda>_.
     bind sleep (\<lambda>_.
     season_loop rp world rest))"

definition reset_data :: "unit prog" where
  "reset_data = (\<lambda>self. (Inr (), self\<lparr>data := []\<rparr>))"

definition write_output :: "string \<Rightarrow> unit prog" where
  "write_output out_name = (\<lambda>self. (Inr (), self\<lparr>files := files self @ [(out_name, data self)]\<rparr>))"

definition scrape_seasons :: "(json \<Rightarrow> ustr) \<Rightarrow> net \<Rightarrow> unit prog" where
  "scrape_seasons rp world =
     bind reset_data (\<lambda>_.
     bind (get_seasons world) (\<lambda>all_seasons.
     bind (lift (iterate all_seasons)) (\<lambda>seasons.
     bind (season_loop rp world seasons) (\<lambda>_.
     bind (say INFO ''Writing to file...'' []) (\<lambda>_.
     bind (write_output ''seasons'') (\<lambda>_.
     say INFO ''Done'' []))))))"

section \<open>Film Normalizer and the film run\<close>

definition extract_film_data :: "tag option \<Rightarrow> abort + dict" where
  "extract_film_data a =
     (case a of
        None \<Rightarrow> Inl (Uncaught TypeError)
      | Some link \<Rightarrow>
          pbind (attr link (lit ''href'')) (\<lambda>href.
          pbind (attr link (lit ''title'')) (\<lambda>title.
          Inr [(lit ''film_id'', JStr (last_segment href)), (lit ''title'', JStr title)])))"

definition films_url :: ustr where
  "films_url = lit ''https://www.digitalconcerthall.com/en/films''"

text \<open>The result is the \<open>li.item\<close> list; \<open>map\<close> is lazy, so the caller's loop extracts.\<close>

definition get_films :: "net \<Rightarrow> tag option list prog" where
  "get_films world =
     bind (say DEBUG ''Getting films...'' []) (\<lambda>_.
     bind (get world films_url) (\<lambda>r.
     case r of
       HTTPError httpe \<Rightarrow> fail ''Get films failed with http error: {httpe}'' [S httpe]
     | ConnectionError cerr \<Rightarrow> fail ''Get films failed with network problems: {cerr}'' [S cerr]
     | Timeout \<Rightarrow> fail ''Get films timed out!'' []
     | RequestException err \<Rightarrow> fail ''Get films failed with request error: {err}'' [S err]
     | Response r \<Rightarrow>
         (let films = li_item_a (r_soup r) in
          bind (say DEBUG ''Found {len(films)} films'' [N (length films)]) (\<lambda>_.
          return films))))"

definition film_url :: "ustr \<Rightarrow> ustr" where
  "film_url film_id = lit ''https://www.digitalconcerthall.com/en/film/'' @ film_id"

definition film_fields :: "soup \<Rightarrow> dict \<Rightarrow> dict" where
  "film_fields soup film_dict =
     (let film_dict = set_opt film_dict (lit ''subtitle'') (div_margin_15_p soup)
                        (\<lambda>t. py_strip (tag_text t));
          actorsTag = div_box_50_strong soup;
          film_dict = (if length actorsTag \<noteq> 0
                       then dict_set film_dict (lit ''actors'')
                              (JArr (map (\<lambda>actor. JStr (py_strip (tag_text actor))) actorsTag))
                       else film_dict);
          film_dict = set_opt film_dict (lit ''description'') (div_tabs_0 soup)
                        (\<lambda>t. py_strip (tag_text t));
          film_dict = set_opt film_dict (lit ''credits'') (div_tabs_2 soup)
                        (\<lambda>t. py_strip (tag_text t))
      in film_dict)"

text \<open>The \<open>film_id\<close> of a catalog entry is a \<open>str\<close>: \<open>__extract_film_data\<close> made it.\<close>

definition handle_film :: "net \<Rightarrow> dict \<Rightarrow> unit prog" where
  "handle_film world film_dict = (\<lambda>self.
     (case dict_get film_dict (lit ''film_id'') of
        Some (JStr film_id) \<Rightarrow>
          if film_id \<notin> set (film_id_list self) then
            bind (say DEBUG ''Scraping film with ID {film_id}...'' [S film_id]) (\<lambda>_.
            bind (get world (film_url film_id)) (\<lambda>r.
            case r of
              HTTPError httpe \<Rightarrow>
                fail ''Get film with ID {film_id} failed with http error: {httpe}'' [S film_id, S httpe]
            | ConnectionError cerr \<Rightarrow>
                fail ''Get film with ID {film_id} failed with network problems: {cerr}''
                  [S film_id, S cerr]
            | Timeout \<Rightarrow> fail ''Get film with ID {film_id} timed out!'' [S film_id]
            | RequestException err \<Rightarrow>
                fail ''Get film with ID {film_id} failed with request error: {err}'' [S film_id, S err]
            | Response r \<Rightarrow>
                bind (get_streams world film_id) (\<lambda>streams.
                bind (case dict_get streams film_id of
                        Some u \<Rightarrow> return (dict_set film_dict (lit ''streamUrl'') u)
                      | None \<Rightarrow>
                          bind (say WARNING ''No stream url found for film with ID {film_id}''
                                  [S film_id]) (\<lambda>_.
                          return (dict_set film_dict (lit ''streamUrl'') (JStr (lit ''not-found''))))) (\<lambda>film_dict.
                append_data (JObj (film_fields (r_soup r) film_dict))))))
          else
            say DEBUG ''Skipping film with ID {film_id} because it already exists'' [S film_id]
      | Some _ \<Rightarrow> raise (Uncaught TypeError)
      | None \<Rightarrow> raise (Uncaught KeyError)) self)"

fun film_loop :: "net \<Rightarrow> tag option list \<Rightarrow> unit prog" where
  "film_loop world [] = return ()"
| "film_loop world (li # rest) =
     bind (lift (extract_film_data li)) (\<lambda>film.
     bind (handle_film world film) (\<lambda>_.
     bind sleep (\<lambda>_.
     film_loop world rest)))"

definition scrape_films :: "net \<Rightarrow> unit prog" where
  "scrape_films world =
     bind reset_data (\<lambda>_.
     bind (get_films world) (\<lambda>all_films.
     bind (film_loop world all_films) (\<lambda>_.
     bind (say INFO ''Writing to file...'' []) (\<lambda>_.
     bind (write_output ''films'') (\<lambda>_.
     say INFO ''Done'' [])))))"

section \<open>Specification-side notions and example data\<close>

text \<open>
  The spec's words for the Stream Resolver: the \<open>url\<close> field of the first (index 0)
  candidate descriptor of a list; none when the list is empty or is no list of descriptors.
\<close>

definition spec_first_candidate_url :: "json \<Rightarrow> json option" where
  "spec_first_candidate_url v =
     (case v of JArr (JObj c # cs) \<Rightarrow> dict_get c (lit ''url'') | _ \<Rightarrow> None)"

definition st0 :: state where
  "st0 = \<lparr>data = [], concert_id_list = [], film_id_list = [], log = [], requests = [],
          files = [], pauses = 0\<rparr>"

definition no_soup :: soup where
  "no_soup = \<lparr>h1_name = None, div_description = None, div_tabs_1 = None, p_concertMeta = None,
     p_mainArtist = None, starArtist_name = [], div_concert_support = None, list_lines_li = [],
     li_archive = [], li_item_a = [], div_margin_15_p = None, div_box_50_strong = [],
     div_tabs_0 = None, div_tabs_2 = None\<rparr>"

definition json_response :: "json \<Rightarrow> response" where
  "json_response j = \<lparr>r_json = Some j, r_text = [], r_soup = no_soup\<rparr>"

definition html_response :: "soup \<Rightarrow> response" where
  "html_response sp = \<lparr>r_json = None, r_text = [], r_soup = sp\<rparr>"

text \<open>The mock stream-lookup answer of the spec's round-trip property.\<close>

definition mock_urls :: dict where
  "mock_urls =
     [(lit ''42'', JArr [JObj [(lit ''url'', JStr (lit ''https://x/a''))],
                         JObj [(lit ''url'', JStr (lit ''https://x/b''))]])]"

definition mock_envelope :: dict where
  "mock_envelope = [(lit ''success'', JBool True), (lit ''urls'', JObj mock_urls)]"

definition mock_world :: net where
  "mock_world = (\<lambda>url. Response (json_response (JObj mock_envelope)))"

text \<open>A season index that announces five seasons and lists one.\<close>

definition short_index :: dict where
  "short_index =
     [(lit ''count'', JInt 5),
      (lit ''items'', JArr [JObj [(lit ''id'', JStr (lit ''2020'')),
                                  (lit ''label'', JStr (lit ''2019-2020''))]])]"

definition short_index_world :: net where
  "short_index_world = (\<lambda>url. Response (json_response (JObj short_index)))"





text \<open>Reading the output records: a field of a record, the pieces of a Concert.\<close>

definition field :: "ustr \<Rightarrow> json \<Rightarrow> json option" where
  "field k j = (case j of JObj d \<Rightarrow> dict_get d k | _ \<Rightarrow> None)"

definition list_field :: "ustr \<Rightarrow> json \<Rightarrow> json list" where
  "list_field k j = (case field k j of Some (JArr xs) \<Rightarrow> xs | _ \<Rightarrow> [])"

text \<open>
  The spec's words for the stream URL of an item: the URL the resolved map has under
  the item's identifier, else the sentinel.
\<close>

definition spec_stream_url :: "dict \<Rightarrow> ustr \<Rightarrow> json" where
  "spec_stream_url streams ident =
     (case dict_get streams ident of Some u \<Rightarrow> u | None \<Rightarrow> JStr (lit ''not-found''))"

definition is_str :: "json \<Rightarrow> bool" where
  "is_str j = (case j of JStr s \<Rightarrow> True | _ \<Rightarrow> False)"

text \<open>Example pieces. A header of a text and an emphasised word, with no artists.\<close>

definition tag_of :: "string \<Rightarrow> string \<Rightarrow> tag" where
  "tag_of n s = Tag (lit n) [] [NavigableString (lit s)]"

definition work_div :: "string \<Rightarrow> tag" where
  "work_div i = Tag (lit ''div'') [(lit ''class'', lit ''jsConcertWork''), (lit ''id'', lit i)] []"

definition odd_h2 :: tag where
  "odd_h2 = Tag (lit ''h2'') [] [NavigableString (lit ''A ''), Element (tag_of ''em'' ''B'')]"

definition odd_piece :: piece_li where
  "odd_piece = \<lparr>div_jsConcertWork = Some (work_div ''7''), find_h2 = Some odd_h2, find_p = None\<rparr>"

text \<open>A composer, a break and a description; one bare name as the artists.\<close>

definition usual_h2 :: tag where
  "usual_h2 = Tag (lit ''h2'') []
     [Element (tag_of ''strong'' ''Brahms''), Element (Tag (lit ''br'') [] []),
      NavigableString (lit '' Symphony  No. 1 '')]"

definition bare_p :: tag where
  "bare_p = Tag (lit ''p'') [] [NavigableString (lit ''Berliner Philharmoniker'')]"

definition bare_piece :: piece_li where
  "bare_piece = \<lparr>div_jsConcertWork = Some (work_div ''42''), find_h2 = Some usual_h2,
                  find_p = Some bare_p\<rparr>"

text \<open>Two groups with the same role.\<close>

definition duo_p :: tag where
  "duo_p = Tag (lit ''p'') []
     [Element (tag_of ''strong'' ''Anna''), NavigableString (lit '' ''),
      Element (tag_of ''em'' ''violin''), NavigableString (lit '', ''),
      Element (tag_of ''strong'' ''Ben''), NavigableString (lit '' ''),
      Element (tag_of ''em'' ''violin'')]"

definition duo_piece :: piece_li where
  "duo_piece = \<lparr>div_jsConcertWork = Some (work_div ''42''), find_h2 = Some usual_h2,
                 find_p = Some duo_p\<rparr>"

text \<open>
  A small site: one season with two concerts, \<open>42\<close> and \<open>991231\<close>; the page of
  concert \<open>42\<close> with two pieces; a film index that lists the films \<open>7\<close> and
  \<open>8\<close>; the stream lookup answers \<open>42\<close> and \<open>7\<close> with the mock envelope.
  Concert \<open>991231\<close> and film \<open>8\<close> have no page: they are the ones seen before.
\<close>

definition demo_label :: ustr where
  "demo_label = lit ''2019'' @ [EN_DASH] @ lit ''2020''"

definition demo_index :: dict where
  "demo_index =
     [(lit ''count'', JInt 1),
      (lit ''items'', JArr [JObj [(lit ''id'', JStr (lit ''2020'')), (lit ''label'', JStr demo_label)]])]"

definition demo_listing :: soup where
  "demo_listing = no_soup\<lparr>li_archive :=
     [Tag (lit ''li'') [(lit ''class'', lit ''archive''), (lit ''id'', lit ''concert_42'')] [],
      Tag (lit ''li'') [(lit ''class'', lit ''archive''), (lit ''id'', lit ''concert_991231'')] []]\<rparr>"

definition demo_concert_page :: soup where
  "demo_concert_page = no_soup\<lparr>
     h1_name := Some (tag_of ''h1'' ''Late  Night''),
     p_concertMeta := Some (tag_of ''p'' ''12 Mar 2020''),
     p_mainArtist := Some (tag_of ''p'' ''Berliner Philharmoniker''),
     list_lines_li := [duo_piece, odd_piece]\<rparr>"

definition demo_film_link :: tag where
  "demo_film_link = Tag (lit ''a'') [(lit ''href'', lit ''/en/film/7''), (lit ''title'', lit ''Karajan'')] []"

definition demo_film_link_8 :: tag where
  "demo_film_link_8 = Tag (lit ''a'') [(lit ''href'', lit ''/en/film/8''), (lit ''title'', lit ''Abbado'')] []"

definition demo_films_page :: soup where
  "demo_films_page = no_soup\<lparr>li_item_a := [Some demo_film_link, Some demo_film_link_8]\<rparr>"

definition twice_films_page :: soup where
  "twice_films_page = no_soup\<lparr>li_item_a := [Some demo_film_link, Some demo_film_link]\<rparr>"

definition demo_film_page :: soup where
  "demo_film_page = no_soup\<lparr>div_margin_15_p := Some (tag_of ''p'' '' A portrait '')\<rparr>"

definition demo_world :: net where
  "demo_world url =
     (if url = seasons_url then Response (json_response (JObj demo_index))
      else if url = season_url (lit ''2020'') then Response (html_response demo_listing)
      else if url = concert_url (lit ''42'') then Response (html_response demo_concert_page)
      else if url = films_url then Response (html_response demo_films_page)
      else if url = film_url (lit ''7'') then Response (html_response demo_film_page)
      else if url = streams_url (lit ''42'') \<or> url = streams_url (lit ''7'')
      then Response (json_response (JObj mock_envelope))
      else HTTPError (lit ''404 Client Error''))"

definition demo_piece_42 :: json where
  "demo_piece_42 =
     JObj [(lit ''pieceId'', JStr (lit ''42'')), (lit ''streamUrl'', JStr (lit ''https://x/a'')),
           (lit ''composer'', JStr (lit ''Brahms'')),
           (lit ''description'', JStr (lit ''Symphony No. 1'')),
           (lit ''artists'', JArr [JObj [(lit ''role'', JStr (lit ''violin'')),
              (lit ''names'', JArr [JStr (lit ''Anna''), JStr (lit ''Ben'')])]])]"

definition demo_piece_7 :: json where
  "demo_piece_7 =
     JObj [(lit ''pieceId'', JStr (lit ''7'')), (lit ''streamUrl'', JStr (lit ''not-found'')),
           (lit ''description'', JStr (lit ''AB''))]"

definition demo_concert :: json where
  "demo_concert =
     JObj [(lit ''concertId'', JStr (lit ''42'')), (lit ''concertTitle'', JStr (lit ''Late  Night'')),
           (lit ''concertDate'', JStr (lit ''12 Mar 2020'')),
           (lit ''mainArtist'', JStr (lit ''Berliner Philharmoniker'')),
           (lit ''pieces'', JArr [demo_piece_42, demo_piece_7])]"

definition demo_film_entry :: dict where
  "demo_film_entry = [(lit ''film_id'', JStr (lit ''7'')), (lit ''title'', JStr (lit ''Karajan''))]"

definition demo_film :: json where
  "demo_film =
     JObj [(lit ''film_id'', JStr (lit ''7'')), (lit ''title'', JStr (lit ''Karajan'')),
           (lit ''streamUrl'', JStr (lit ''not-found'')), (lit ''subtitle'', JStr (lit ''A portrait''))]"

definition demo_season :: json where
  "demo_season =
     JObj [(lit ''seasonId'', JStr (lit ''2020'')), (lit ''season'', JStr (lit ''2019-2020'')),
           (lit ''concerts'', JArr [demo_concert])]"

text \<open>The same site with a film index that lists film \<open>7\<close> twice.\<close>

definition twice_world :: net where
  "twice_world url =
     (if url = films_url then Response (html_response twice_films_page) else demo_world url)"

text \<open>The same site with a stream lookup that reports failure for concert \<open>42\<close>.\<close>

definition denied_envelope :: dict where
  "denied_envelope = [(lit ''success'', JBool False), (lit ''message'', JStr (lit ''denied''))]"

definition denied_world :: net where
  "denied_world url =
     (if url = streams_url (lit ''42'') then Response (json_response (JObj denied_envelope))
      else demo_world url)"

text \<open>The object as a run starts: concert \<open>991231\<close> and film \<open>8\<close> seen before.\<close>

definition demo_start :: state where
  "demo_start = st0\<lparr>concert_id_list := [lit ''991231''], film_id_list := [lit ''8'']\<rparr>"

text \<open>The interpreter's \<open>str()\<close> of values that are no strings; the examples have none.\<close>

definition no_repr :: "json \<Rightarrow> ustr" where
  "no_repr v = []"

text \<open>
  What a run may do to the state, whatever its outcome: the seen lists and the files
  stay as they are, and the requests grow by URLs that \<open>ok\<close> admits for these seen lists.
\<close>

definition grows :: "(ustr list \<Rightarrow> ustr list \<Rightarrow> ustr \<Rightarrow> bool) \<Rightarrow> state \<Rightarrow> state \<Rightarrow> bool" where
  "grows ok s s' \<longleftrightarrow>
     concert_id_list s' = concert_id_list s \<and> film_id_list s' = film_id_list s \<and>
     files s' = files s \<and>
     (\<exists>ex. requests s' = requests s @ ex \<and>
           (\<forall>u \<in> set ex. ok (concert_id_list s) (film_id_list s) u))"

text \<open>An outcome that, if it ends the process, ends it with a nonzero status.\<close>

definition fatal :: "abort + 'a \<Rightarrow> bool" where
  "fatal r = (case r of Inl e \<Rightarrow> exit_status e \<noteq> 0 | Inr x \<Rightarrow> True)"

text \<open>A program all of whose runs grow the state in this way and have such an outcome.\<close>

definition careful :: "(ustr list \<Rightarrow> ustr list \<Rightarrow> ustr \<Rightarrow> bool) \<Rightarrow> 'a prog \<Rightarrow> bool" where
  "careful ok m \<longleftrightarrow> (\<forall>s r s'. m s = (r, s') \<longrightarrow> grows ok s s' \<and> fatal r)"

text \<open>The URLs of a concert run and of a film run, given the seen lists.\<close>

definition concert_run_url :: "ustr list \<Rightarrow> ustr list \<Rightarrow> ustr \<Rightarrow> bool" where
  "concert_run_url seen fseen u \<longleftrightarrow>
     u = seasons_url \<or> (\<exists>x. u = season_url x) \<or>
     (\<exists>c. c \<notin> set seen \<and> (u = concert_url c \<or> u = streams_url c))"

definition film_run_url :: "ustr list \<Rightarrow> ustr list \<Rightarrow> ustr \<Rightarrow> bool" where
  "film_run_url seen fseen u \<longleftrightarrow>
     u = films_url \<or> (\<exists>f. f \<notin> set fseen \<and> (u = film_url f \<or> u = streams_url f))"

text \<open>The requests a run has added to those of the state it started from.\<close>

definition issued :: "state \<Rightarrow> state \<Rightarrow> ustr list" where
  "issued s s' = drop (length (requests s)) (requests s')"

text \<open>The two runs up to the point where the batch is written.\<close>

definition seasons_walk :: "(json \<Rightarrow> ustr) \<Rightarrow> net \<Rightarrow> unit prog" where
  "seasons_walk rp world =
     bind reset_data (\<lambda>_.
     bind (get_seasons world) (\<lambda>all_seasons.
     bind (lift (iterate all_seasons)) (\<lambda>seasons.
     season_loop rp world seasons)))"

definition films_walk :: "net \<Rightarrow> unit prog" where
  "films_walk world =
     bind reset_data (\<lambda>_.
     bind (get_films world) (\<lambda>all_films.
     film_loop world all_films))"

text \<open>A program none of whose runs touches the batch \<open>data\<close>.\<close>

definition quiet :: "'a prog \<Rightarrow> bool" where
  "quiet m \<longleftrightarrow> (\<forall>s r s'. m s = (r, s') \<longrightarrow> data s' = data s)"

text \<open>
  The identifiers a catalog lists, in the words of the spec's interfaces: the concert
  identifiers of a season listing, the seasons of the index, the films of the film index.
  An entry the scraper cannot read counts as the empty identifier; a run that meets one
  ends.
\<close>

definition listed_id :: "tag \<Rightarrow> ustr" where
  "listed_id li = (case attr li (lit ''id'') of Inr i \<Rightarrow> drop 8 i | Inl e \<Rightarrow> [])"

definition season_listing :: "(json \<Rightarrow> ustr) \<Rightarrow> net \<Rightarrow> json \<Rightarrow> ustr list" where
  "season_listing rp world season =
     (case subscript season (lit ''id'') of
        Inr season_id \<Rightarrow>
          (case world (season_url (py_str rp season_id)) of
             Response r \<Rightarrow> map listed_id (li_archive (r_soup r))
           | _ \<Rightarrow> [])
      | Inl e \<Rightarrow> [])"

definition catalog_seasons :: "net \<Rightarrow> json list" where
  "catalog_seasons world =
     (case world seasons_url of
        Response r \<Rightarrow>
          (case r_json r of
             Some seasons_dict \<Rightarrow>
               (case subscript seasons_dict (lit ''items'') of
                  Inr its \<Rightarrow> (case iterate its of Inr seasons \<Rightarrow> seasons | Inl e \<Rightarrow> [])
                | Inl e \<Rightarrow> [])
           | None \<Rightarrow> [])
      | _ \<Rightarrow> [])"

definition concert_catalog :: "(json \<Rightarrow> ustr) \<Rightarrow> net \<Rightarrow> ustr list" where
  "concert_catalog rp world = concat (map (season_listing rp world) (catalog_seasons world))"

definition listed_film_id :: "tag option \<Rightarrow> ustr" where
  "listed_film_id a =
     (case a of
        Some link \<Rightarrow> (case attr link (lit ''href'') of Inr href \<Rightarrow> last_segment href | Inl e \<Rightarrow> [])
      | None \<Rightarrow> [])"

definition film_catalog :: "net \<Rightarrow> ustr list" where
  "film_catalog world =
     (case world films_url of
        Response r \<Rightarrow> map listed_film_id (li_item_a (r_soup r))
      | _ \<Rightarrow> [])"

text \<open>The identifiers of the records of a batch: of its Films, of the Concerts of its Seasons.\<close>

definition batch_film_ids :: "json list \<Rightarrow> json option list" where
  "batch_film_ids batch = map (field (lit ''film_id'')) batch"

definition season_concert_ids :: "json \<Rightarrow> json option list" where
  "season_concert_ids rec = map (field (lit ''concertId'')) (list_field (lit ''concerts'') rec)"

definition batch_concert_ids :: "json list \<Rightarrow> json option list" where
  "batch_concert_ids batch = concat (map season_concert_ids batch)"

definition unseen :: "ustr list \<Rightarrow> ustr list \<Rightarrow> json option list" where
  "unseen seen ids = map (\<lambda>i. Some (JStr i)) (filter (\<lambda>i. i \<notin> set seen) ids)"

text \<open>The stream lookup for an identifier gives a map.\<close>

definition resolves :: "net \<Rightarrow> ustr \<Rightarrow> bool" where
  "resolves world ident = (case fst (get_streams world ident st0) of Inr streams \<Rightarrow> True | Inl e \<Rightarrow> False)"

text \<open>The batches a run has written.\<close>

definition written :: "state \<Rightarrow> state \<Rightarrow> (string \<times> json list) list" where
  "written s s' = drop (length (files s)) (files s')"












section \<open>Properties\<close>

lemmas prog_defs = bind_def return_def raise_def lift_def say_def fail_def get_def sleep_def

subsection \<open>Stream Resolver: first candidate\<close>

lemma manifest_first:
  "\<forall>kv \<in> set urls. spec_first_candidate_url (snd kv) \<noteq> None \<Longrightarrow>
   \<exists>m. manifest urls = Inr m \<and>
       map (\<lambda>(k, u). (k, Some u)) m = map (\<lambda>(k, v). (k, spec_first_candidate_url v)) urls"
proof (induction urls)
  case Nil
  then show ?case by simp
next
  case (Cons kv urls)
  obtain k v where kv: "kv = (k, v)" by (cases kv)
  from Cons.prems kv obtain c cs u
    where v: "v = JArr (JObj c # cs)" and u: "dict_get c (lit ''url'') = Some u"
    by (auto simp: spec_first_candidate_url_def split: json.splits list.splits)
  from Cons obtain m where m: "manifest urls = Inr m"
    "map (\<lambda>(k, u). (k, Some u)) m = map (\<lambda>(k, v). (k, spec_first_candidate_url v)) urls"
    by auto
  show ?case using kv v u m by (simp add: spec_first_candidate_url_def)
qed

lemma get_streams_ok:
  assumes "world (streams_url cid) = Response r"
    and "r_json r = Some (JObj env)"
    and "dict_get env (lit ''success'') = Some s" and "truthy s"
    and "dict_get env (lit ''urls'') = Some (JObj urls)"
    and "manifest urls = Inr m"
  shows "get_streams world cid st =
     (Inr m, st\<lparr>log := log st @
        [(DEBUG, ''Getting streams for content with ID {content_id}...'', [S cid]),
         (DEBUG, ''Extracted {len(manifest_dict)} streams for content with ID {content_id}'',
          [N (length m), S cid])],
        requests := requests st @ [streams_url cid]\<rparr>)"
  using assms by (simp add: get_streams_def prog_defs)

text \<open>
  C2. When the stream lookup answers with a successful envelope whose \<open>urls\<close> object
  sends every sub-item identifier to a non-empty list that starts with a descriptor
  carrying a \<open>url\<close>, \<open>__get_streams\<close> returns a dict with the same identifiers in the
  same order, each bound to the \<open>url\<close> of the index-0 candidate of its list.
\<close>

theorem get_streams_first_candidate:
  assumes "world (streams_url cid) = Response r"
    and "r_json r = Some (JObj env)"
    and "dict_get env (lit ''success'') = Some s" and "truthy s"
    and "dict_get env (lit ''urls'') = Some (JObj urls)"
    and "\<forall>kv \<in> set urls. spec_first_candidate_url (snd kv) \<noteq> None"
  shows "\<exists>m. fst (get_streams world cid st) = Inr m \<and>
       map (\<lambda>(k, u). (k, Some u)) m = map (\<lambda>(k, v). (k, spec_first_candidate_url v)) urls"
proof -
  from manifest_first [OF assms(6)] obtain m where m: "manifest urls = Inr m"
    "map (\<lambda>(k, u). (k, Some u)) m = map (\<lambda>(k, v). (k, spec_first_candidate_url v)) urls"
    by blast
  have "get_streams world cid st =
     (Inr m, st\<lparr>log := log st @
        [(DEBUG, ''Getting streams for content with ID {content_id}...'', [S cid]),
         (DEBUG, ''Extracted {len(manifest_dict)} streams for content with ID {content_id}'',
          [N (length m), S cid])],
        requests := requests st @ [streams_url cid]\<rparr>)"
    using assms(1-5) m(1) by (rule get_streams_ok)
  then show ?thesis using m(2) by auto
qed

text \<open>The spec's mock endpoint: the answer for \<open>42\<close> is the first URL, \<open>https://x/a\<close>.\<close>

theorem get_streams_first_candidate_witness:
  "fst (get_streams mock_world (lit ''42'') st0) = Inr [(lit ''42'', JStr (lit ''https://x/a''))]"
  using get_streams_first_candidate
    [of mock_world "lit ''42''" "json_response (JObj mock_envelope)" mock_envelope
        "JBool True" mock_urls st0]
  by (auto simp: mock_world_def json_response_def mock_envelope_def mock_urls_def dict_get_def
        lit_def spec_first_candidate_url_def)

subsection \<open>Season index: the count is only reported\<close>

text \<open>
  C10. When the season index is a JSON object with an \<open>items\<close> list and a \<open>count\<close>,
  \<open>__get_seasons\<close> returns the \<open>items\<close> list as it is, whatever \<open>count\<close> says;
  a \<open>count\<close> that differs from the length adds one WARNING record to the log and nothing
  else: no ERROR record, no exit.
\<close>

theorem get_seasons_count_mismatch:
  assumes "world seasons_url = Response r"
    and "r_json r = Some (JObj d)"
    and "dict_get d (lit ''items'') = Some (JArr xs)"
    and "dict_get d (lit ''count'') = Some c"
  shows "get_seasons world st =
     (Inr (JArr xs),
      st\<lparr>log := log st @ (DEBUG, ''Getting seasons...'', []) #
              (if int_ne (length xs) c
               then [(WARNING, ''API returned a season count of {count}, but {len(items)} were found!'',
                      [J c, N (length xs)])]
               else []),
         requests := requests st @ [seasons_url]\<rparr>)"
  using assms by (simp add: get_seasons_def prog_defs)

theorem get_seasons_count_mismatch_witness:
  "get_seasons short_index_world st0 =
     (Inr (JArr [JObj [(lit ''id'', JStr (lit ''2020'')), (lit ''label'', JStr (lit ''2019-2020''))]]),
      st0\<lparr>log := [(DEBUG, ''Getting seasons...'', []),
                  (WARNING, ''API returned a season count of {count}, but {len(items)} were found!'',
                   [J (JInt 5), N 1])],
          requests := [seasons_url]\<rparr>)"
  using get_seasons_count_mismatch
    [of short_index_world "json_response (JObj short_index)" short_index
        "[JObj [(lit ''id'', JStr (lit ''2020'')), (lit ''label'', JStr (lit ''2019-2020''))]]"
        "JInt 5" st0]
  by (simp add: short_index_world_def json_response_def short_index_def dict_get_def lit_def st0_def)

subsection \<open>Dicts\<close>

lemma dict_get_dict_set:
  "dict_get (dict_set d k v) k' = (if k' = k then Some v else dict_get d k')"
  by (induction d) (auto simp: dict_get_def)

lemma dict_get_set_opt_other:
  "k' \<noteq> k \<Longrightarrow> dict_get (set_opt d k t f) k' = dict_get d k'"
  by (simp add: set_opt_def dict_get_dict_set split: option.splits)

subsection \<open>Pieces\<close>

lemma header_loop_other:
  "k \<noteq> lit ''composer'' \<Longrightarrow> k \<noteq> lit ''description'' \<Longrightarrow>
   dict_get (header_loop hs d) k = dict_get d k"
  by (induction hs arbitrary: d) (auto simp: dict_get_dict_set)

lemma header_fields_other:
  "k \<noteq> lit ''composer'' \<Longrightarrow> k \<noteq> lit ''description'' \<Longrightarrow>
   dict_get (header_fields hs d) k = dict_get d k"
  by (simp add: header_fields_def Let_def header_loop_other dict_get_dict_set)

lemma artist_fields_other:
  "k \<noteq> lit ''artists'' \<Longrightarrow> dict_get (artist_fields cs d) k = dict_get d k"
  by (simp add: artist_fields_def Let_def dict_get_dict_set)





text \<open>What a piece is when \<open>extract_piece\<close> returns one.\<close>

lemma extract_piece_Inr:
  assumes "extract_piece streams piece st = (Inr p, st')"
  shows "\<exists>t pid h. div_jsConcertWork piece = Some t \<and> attr t (lit ''id'') = Inr pid \<and>
           find_h2 piece = Some h \<and>
           p = JObj (case find_p piece of
                       None \<Rightarrow>
                         header_fields (contents h)
                           [(lit ''pieceId'', JStr pid), (lit ''streamUrl'', spec_stream_url streams pid)]
                     | Some a \<Rightarrow>
                         artist_fields (contents a)
                           (header_fields (contents h)
                              [(lit ''pieceId'', JStr pid),
                               (lit ''streamUrl'', spec_stream_url streams pid)]))"
  using assms
  by (auto simp: extract_piece_def prog_defs spec_stream_url_def Let_def
           split: option.splits sum.splits)

lemma piece_start_keys:
  "dict_get [(lit ''pieceId'', JStr pid), (lit ''streamUrl'', u)] (lit ''composer'') = None"
  "dict_get [(lit ''pieceId'', JStr pid), (lit ''streamUrl'', u)] (lit ''description'') = None"
  "dict_get [(lit ''pieceId'', JStr pid), (lit ''streamUrl'', u)] (lit ''artists'') = None"
  "dict_get [(lit ''pieceId'', JStr pid), (lit ''streamUrl'', u)] (lit ''streamUrl'') = Some u"
  "dict_get [(lit ''pieceId'', JStr pid), (lit ''streamUrl'', u)] (lit ''pieceId'') = Some (JStr pid)"
  by (simp_all add: dict_get_def lit_def)

lemma key_neqs:
  "lit ''artists'' \<noteq> lit ''composer''" "lit ''artists'' \<noteq> lit ''description''"
  "lit ''streamUrl'' \<noteq> lit ''composer''" "lit ''streamUrl'' \<noteq> lit ''description''"
  "lit ''streamUrl'' \<noteq> lit ''artists''" "lit ''pieceId'' \<noteq> lit ''composer''"
  "lit ''pieceId'' \<noteq> lit ''description''" "lit ''pieceId'' \<noteq> lit ''artists''"
  "lit ''description'' \<noteq> lit ''artists''" "lit ''composer'' \<noteq> lit ''artists''"
  "lit ''composer'' \<noteq> lit ''description''"
  by (simp_all add: lit_def)

subsection \<open>Artists: the fold by role\<close>










lemma make_dict_plain:
  "\<forall>n \<in> set g. node_name n \<noteq> Some (lit ''strong'') \<and> node_name n \<noteq> Some (lit ''em'') \<Longrightarrow>
   foldl make_dict_step a g = a"
  by (induction g arbitrary: a) (auto simp: make_dict_step_def)

subsection \<open>A single group without role and player\<close>

text \<open>
  C4. When the artist fragment of a piece has exactly one group (the runs between
  bare-comma strings) and no node of that group is a \<open>strong\<close> or an \<open>em\<close>, the
  produced Piece has no \<open>artists\<close> field.
\<close>

theorem bare_group_no_artists:
  assumes "extract_piece streams piece st = (Inr p, st')"
    and "find_p piece = Some a"
    and "artist_groups (contents a) = [g]"
    and "\<forall>n \<in> set g. node_name n \<noteq> Some (lit ''strong'') \<and> node_name n \<noteq> Some (lit ''em'')"
  shows "\<exists>pd. p = JObj pd \<and> dict_get pd (lit ''artists'') = None"
proof -
  have "make_dict g = \<lparr>role = KEINE_ROLLE, player = KEINER\<rparr>"
    using assms(4) by (simp add: make_dict_def make_dict_plain)
  then have same: "artist_fields (contents a) d = d" for d
    using assms(3) by (simp add: artist_fields_def artist_list_def)
  from extract_piece_Inr [OF assms(1)] assms(2) same obtain pid h where
    "p = JObj (header_fields (contents h)
                 [(lit ''pieceId'', JStr pid), (lit ''streamUrl'', spec_stream_url streams pid)])"
    by auto
  then show ?thesis
    by (simp add: header_fields_other key_neqs piece_start_keys)
qed

theorem bare_group_no_artists_witness:
  "fst (extract_piece [] bare_piece st0) =
     Inr (JObj [(lit ''pieceId'', JStr (lit ''42'')), (lit ''streamUrl'', JStr (lit ''not-found'')),
                (lit ''composer'', JStr (lit ''Brahms'')),
                (lit ''description'', JStr (lit ''Symphony No. 1''))])
   \<and> dict_get [(lit ''pieceId'', JStr (lit ''42'')), (lit ''streamUrl'', JStr (lit ''not-found'')),
                (lit ''composer'', JStr (lit ''Brahms'')),
                (lit ''description'', JStr (lit ''Symphony No. 1''))] (lit ''artists'') = None"
proof -
  have run: "extract_piece [] bare_piece st0 =
     (Inr (JObj [(lit ''pieceId'', JStr (lit ''42'')), (lit ''streamUrl'', JStr (lit ''not-found'')),
                (lit ''composer'', JStr (lit ''Brahms'')),
                (lit ''description'', JStr (lit ''Symphony No. 1''))]),
      st0\<lparr>log := [(WARNING, ''No stream url found for concert piece with ID {concert_piece_id}'',
                   [S (lit ''42'')])]\<rparr>)"
    by (simp add: extract_piece_def prog_defs bare_piece_def work_div_def attr_def usual_h2_def
          bare_p_def tag_of_def header_fields_def artist_fields_def artist_list_def
          artist_groups_def make_dict_def make_dict_step_def KEINE_ROLLE_def KEINER_def
          collapse_def py_split_def py_strip_def py_lstrip_def py_rstrip_def py_isspace_def
          dict_get_def lit_def st0_def)
  have grp: "artist_groups (contents bare_p) = [[NavigableString (lit ''Berliner Philharmoniker'')]]"
    by (simp add: artist_groups_def bare_p_def py_strip_def py_lstrip_def py_rstrip_def
          py_isspace_def lit_def)
  from bare_group_no_artists [OF run _ grp] show ?thesis
    using run by (auto simp: bare_piece_def lit_def)
qed

subsection \<open>Groups with the same role are folded\<close>



subsection \<open>The description of a piece\<close>




subsection \<open>The stream URL of pieces and films\<close>

lemma pieces_loop_Inr:
  "pieces_loop streams ps acc st = (Inr out, st') \<Longrightarrow>
   \<exists>new. out = acc @ new \<and>
     list_all2 (\<lambda>piece p. \<exists>s s'. extract_piece streams piece s = (Inr p, s')) ps new"
proof (induction ps arbitrary: acc st)
  case Nil
  then show ?case by (simp add: return_def)
next
  case (Cons piece ps)
  from Cons.prems obtain p s1 where p: "extract_piece streams piece st = (Inr p, s1)"
    and rest: "pieces_loop streams ps (acc @ [p]) s1 = (Inr out, st')"
    by (auto simp: bind_def split: prod.splits sum.splits)
  from Cons.IH [OF rest] obtain new where "out = (acc @ [p]) @ new"
    "list_all2 (\<lambda>piece p. \<exists>s s'. extract_piece streams piece s = (Inr p, s')) ps new"
    by blast
  with p show ?case
    by (intro exI [of _ "p # new"]) auto
qed

lemma extract_metadata_Inr:
  assumes "extract_metadata world cid soup st = (Inr md, st')"
  shows "\<exists>streams s s' d pieces.
           get_streams world cid s = (Inr streams, s') \<and>
           concert_fields cid soup = Inr d \<and>
           list_all2 (\<lambda>piece p. \<exists>s s'. extract_piece streams piece s = (Inr p, s'))
             (list_lines_li soup) pieces \<and>
           md = JObj (dict_set d (lit ''pieces'') (JArr pieces))"
proof -
  from assms obtain streams s s' d s2 pieces where
    "get_streams world cid s = (Inr streams, s')" "concert_fields cid soup = Inr d"
    "pieces_loop streams (list_lines_li soup) [] s2 = (Inr pieces, st')"
    "md = JObj (dict_set d (lit ''pieces'') (JArr pieces))"
    unfolding extract_metadata_def bind_def say_def lift_def return_def
    by (auto split: prod.splits sum.splits)
  with pieces_loop_Inr [of streams "list_lines_li soup" "[]" s2 pieces st'] show ?thesis
    by auto
qed

lemma piece_stream_url:
  assumes "extract_piece streams piece s = (Inr p, s')"
  shows "\<exists>pid. field (lit ''pieceId'') p = Some (JStr pid) \<and>
               field (lit ''streamUrl'') p = Some (spec_stream_url streams pid)"
proof -
  from extract_piece_Inr [OF assms] obtain pid h where
    "p = JObj (case find_p piece of
             None \<Rightarrow>
               header_fields (contents h)
                 [(lit ''pieceId'', JStr pid), (lit ''streamUrl'', spec_stream_url streams pid)]
           | Some a \<Rightarrow>
               artist_fields (contents a)
                 (header_fields (contents h)
                    [(lit ''pieceId'', JStr pid), (lit ''streamUrl'', spec_stream_url streams pid)]))"
    by auto
  then show ?thesis
    by (auto simp: field_def artist_fields_other header_fields_other key_neqs piece_start_keys
             split: option.splits)
qed

lemma film_keys:
  "lit ''streamUrl'' \<noteq> lit ''subtitle''" "lit ''streamUrl'' \<noteq> lit ''actors''"
  "lit ''streamUrl'' \<noteq> lit ''credits''" "lit ''film_id'' \<noteq> lit ''subtitle''"
  "lit ''film_id'' \<noteq> lit ''actors''" "lit ''film_id'' \<noteq> lit ''description''"
  "lit ''film_id'' \<noteq> lit ''credits''" "lit ''film_id'' \<noteq> lit ''streamUrl''"
  by (simp_all add: lit_def)

lemma film_fields_other:
  "k \<noteq> lit ''subtitle'' \<Longrightarrow> k \<noteq> lit ''actors'' \<Longrightarrow> k \<noteq> lit ''description'' \<Longrightarrow>
   k \<noteq> lit ''credits'' \<Longrightarrow> dict_get (film_fields soup d) k = dict_get d k"
  by (simp add: film_fields_def Let_def dict_get_set_opt_other dict_get_dict_set)

text \<open>What a stream lookup leaves of the state: one request more, and log records.\<close>

lemma get_streams_frame:
  assumes "get_streams world cid s = (r, s')"
  shows "data s' = data s" and "concert_id_list s' = concert_id_list s"
    and "film_id_list s' = film_id_list s" and "files s' = files s" and "pauses s' = pauses s"
    and "requests s' = requests s @ [streams_url cid]"
    and "take (length (log s)) (log s') = log s"
  using assms unfolding get_streams_def prog_defs
  by (auto split: reply.splits option.splits sum.splits if_splits)

text \<open>What \<open>__handle_film\<close> does to a film that is not in the seen list, when it returns.\<close>

lemma handle_film_run:
  assumes "handle_film world film st = (Inr (), st')"
    and "dict_get film (lit ''film_id'') = Some (JStr fid)"
    and "fid \<notin> set (film_id_list st)"
  shows "case world (film_url fid) of
           Response r \<Rightarrow>
             (case get_streams world fid
                     (st\<lparr>log := log st @ [(DEBUG, ''Scraping film with ID {film_id}...'', [S fid])],
                         requests := requests st @ [film_url fid]\<rparr>) of
                (Inr streams, s') \<Rightarrow>
                  data st' = data s' @
                    [JObj (film_fields (r_soup r)
                             (dict_set film (lit ''streamUrl'') (spec_stream_url streams fid)))]
              | (Inl e, s') \<Rightarrow> False)
         | _ \<Rightarrow> False"
  using assms
  unfolding handle_film_def bind_def say_def get_def fail_def raise_def return_def append_data_def
    spec_stream_url_def
  by (auto split: reply.splits prod.splits sum.splits option.splits)

lemma handle_film_Inr:
  assumes "handle_film world film st = (Inr (), st')"
    and "dict_get film (lit ''film_id'') = Some (JStr fid)"
    and "fid \<notin> set (film_id_list st)"
  shows "\<exists>r streams s s'. world (film_url fid) = Response r \<and>
           get_streams world fid s = (Inr streams, s') \<and>
           data st' = data st @
             [JObj (film_fields (r_soup r)
                      (dict_set film (lit ''streamUrl'') (spec_stream_url streams fid)))]"
proof -
  define s1 where "s1 = st\<lparr>log := log st @ [(DEBUG, ''Scraping film with ID {film_id}...'', [S fid])],
                         requests := requests st @ [film_url fid]\<rparr>"
  from handle_film_run [OF assms] obtain r streams s' where
    r: "world (film_url fid) = Response r" and gs: "get_streams world fid s1 = (Inr streams, s')"
    and dt: "data st' = data s' @
                    [JObj (film_fields (r_soup r)
                             (dict_set film (lit ''streamUrl'') (spec_stream_url streams fid)))]"
    unfolding s1_def by (auto split: reply.splits prod.splits sum.splits)
  from get_streams_frame(1) [OF gs] have "data s' = data st" by (simp add: s1_def)
  with r gs dt show ?thesis by auto
qed

text \<open>
  C1. Every Piece of a Concert that \<open>__extract_metadata\<close> returns, and the Film that
  \<open>__handle_film\<close> appends, has a \<open>streamUrl\<close> field: the URL the resolved stream map
  has under the piece's or film's identifier, or the string \<open>not-found\<close> when the map
  has no entry. When the map binds strings only, the field is a string. Every entry of the
  page's piece list gives a Piece.
\<close>

theorem stream_url_never_absent:
  "(extract_metadata world cid soup st = (Inr md, st') \<longrightarrow>
      (\<exists>streams s s'. get_streams world cid s = (Inr streams, s') \<and>
         length (list_field (lit ''pieces'') md) = length (list_lines_li soup) \<and>
         (\<forall>p \<in> set (list_field (lit ''pieces'') md). \<exists>pid.
            field (lit ''pieceId'') p = Some (JStr pid) \<and>
            field (lit ''streamUrl'') p = Some (spec_stream_url streams pid) \<and>
            ((\<forall>k u. dict_get streams k = Some u \<longrightarrow> is_str u) \<longrightarrow>
               is_str (spec_stream_url streams pid)))))
   \<and> (handle_film world2 film st2 = (Inr (), st2') \<and>
        dict_get film (lit ''film_id'') = Some (JStr fid) \<and> fid \<notin> set (film_id_list st2) \<longrightarrow>
      (\<exists>streams s s' rec. get_streams world2 fid s = (Inr streams, s') \<and>
         data st2' = data st2 @ [rec] \<and>
         field (lit ''film_id'') rec = Some (JStr fid) \<and>
         field (lit ''streamUrl'') rec = Some (spec_stream_url streams fid) \<and>
         ((\<forall>k u. dict_get streams k = Some u \<longrightarrow> is_str u) \<longrightarrow>
            is_str (spec_stream_url streams fid))))"
proof (intro conjI impI)
  assume "extract_metadata world cid soup st = (Inr md, st')"
  from extract_metadata_Inr [OF this] obtain streams s s' d pieces where
    gs: "get_streams world cid s = (Inr streams, s')" and
    all: "list_all2 (\<lambda>piece p. \<exists>s s'. extract_piece streams piece s = (Inr p, s'))
            (list_lines_li soup) pieces" and
    md: "md = JObj (dict_set d (lit ''pieces'') (JArr pieces))"
    by blast
  have lf: "list_field (lit ''pieces'') md = pieces"
    by (simp add: md list_field_def field_def dict_get_dict_set)
  have str: "(\<forall>k u. dict_get streams k = Some u \<longrightarrow> is_str u) \<longrightarrow> is_str (spec_stream_url streams pid)"
    for pid
    by (auto simp: spec_stream_url_def is_str_def split: option.splits)
  have "\<exists>pid. field (lit ''pieceId'') p = Some (JStr pid) \<and>
              field (lit ''streamUrl'') p = Some (spec_stream_url streams pid) \<and>
              ((\<forall>k u. dict_get streams k = Some u \<longrightarrow> is_str u) \<longrightarrow>
                 is_str (spec_stream_url streams pid))"
    if "p \<in> set pieces" for p
  proof -
    from all that obtain piece s1 s1' where "extract_piece streams piece s1 = (Inr p, s1')"
      by (auto simp: list_all2_conv_all_nth in_set_conv_nth)
    from piece_stream_url [OF this] str show ?thesis by blast
  qed
  then have each: "\<forall>p \<in> set (list_field (lit ''pieces'') md). \<exists>pid.
            field (lit ''pieceId'') p = Some (JStr pid) \<and>
            field (lit ''streamUrl'') p = Some (spec_stream_url streams pid) \<and>
            ((\<forall>k u. dict_get streams k = Some u \<longrightarrow> is_str u) \<longrightarrow>
               is_str (spec_stream_url streams pid))"
    unfolding lf by blast
  have len: "length (list_field (lit ''pieces'') md) = length (list_lines_li soup)"
    using list_all2_lengthD [OF all] by (simp add: lf)
  from gs len each
  show "\<exists>streams s s'. get_streams world cid s = (Inr streams, s') \<and>
         length (list_field (lit ''pieces'') md) = length (list_lines_li soup) \<and>
         (\<forall>p \<in> set (list_field (lit ''pieces'') md). \<exists>pid.
            field (lit ''pieceId'') p = Some (JStr pid) \<and>
            field (lit ''streamUrl'') p = Some (spec_stream_url streams pid) \<and>
            ((\<forall>k u. dict_get streams k = Some u \<longrightarrow> is_str u) \<longrightarrow>
               is_str (spec_stream_url streams pid)))"
    by blast
next
  assume a: "handle_film world2 film st2 = (Inr (), st2') \<and>
        dict_get film (lit ''film_id'') = Some (JStr fid) \<and> fid \<notin> set (film_id_list st2)"
  then have "\<exists>r streams s s'. world2 (film_url fid) = Response r \<and>
           get_streams world2 fid s = (Inr streams, s') \<and>
           data st2' = data st2 @
             [JObj (film_fields (r_soup r)
                      (dict_set film (lit ''streamUrl'') (spec_stream_url streams fid)))]"
    by (intro handle_film_Inr) auto
  then obtain r streams s s' where
    r: "world2 (film_url fid) = Response r" and
    gs: "get_streams world2 fid s = (Inr streams, s')" and
    dt: "data st2' = data st2 @
             [JObj (film_fields (r_soup r)
                      (dict_set film (lit ''streamUrl'') (spec_stream_url streams fid)))]"
    by blast
  have str: "(\<forall>k u. dict_get streams k = Some u \<longrightarrow> is_str u) \<longrightarrow> is_str (spec_stream_url streams fid)"
    by (auto simp: spec_stream_url_def is_str_def split: option.splits)
  from a have "field (lit ''film_id'')
      (JObj (film_fields (r_soup r)
               (dict_set film (lit ''streamUrl'') (spec_stream_url streams fid)))) = Some (JStr fid)"
    by (simp add: field_def film_fields_other film_keys dict_get_dict_set)
  moreover have "field (lit ''streamUrl'')
      (JObj (film_fields (r_soup r)
               (dict_set film (lit ''streamUrl'') (spec_stream_url streams fid))))
      = Some (spec_stream_url streams fid)"
    by (simp add: field_def film_fields_other film_keys key_neqs dict_get_dict_set)
  ultimately show "\<exists>streams s s' rec. get_streams world2 fid s = (Inr streams, s') \<and>
         data st2' = data st2 @ [rec] \<and>
         field (lit ''film_id'') rec = Some (JStr fid) \<and>
         field (lit ''streamUrl'') rec = Some (spec_stream_url streams fid) \<and>
         ((\<forall>k u. dict_get streams k = Some u \<longrightarrow> is_str u) \<longrightarrow>
            is_str (spec_stream_url streams fid))"
    using gs dt str by blast
qed

subsection \<open>What every run preserves\<close>

lemma grows_refl:
  "concert_id_list s' = concert_id_list s \<Longrightarrow> film_id_list s' = film_id_list s \<Longrightarrow>
   files s' = files s \<Longrightarrow> requests s' = requests s \<Longrightarrow> grows ok s s'"
  by (simp add: grows_def)

lemma grows_trans: "grows ok s s' \<Longrightarrow> grows ok s' s'' \<Longrightarrow> grows ok s s''"
  unfolding grows_def by (elim conjE exE) auto

lemma grows_mono:
  "grows ok' s s' \<Longrightarrow>
   (\<And>u. ok' (concert_id_list s) (film_id_list s) u \<Longrightarrow> ok (concert_id_list s) (film_id_list s) u) \<Longrightarrow>
   grows ok s s'"
  unfolding grows_def by auto

lemma fatal_simps [simp]: "fatal (Inr x)" "fatal (Inl e) \<longleftrightarrow> exit_status e \<noteq> 0"
  by (simp_all add: fatal_def)

lemma careful_return: "careful ok (return x)"
  by (simp add: careful_def return_def grows_refl)

lemma careful_raise: "exit_status e \<noteq> 0 \<Longrightarrow> careful ok (raise e)"
  by (simp add: careful_def raise_def grows_refl)

lemma careful_lift: "fatal r \<Longrightarrow> careful ok (lift r)"
  by (simp add: careful_def lift_def grows_refl)

lemma careful_say: "careful ok (say l fmt as)"
  by (simp add: careful_def say_def grows_refl)

lemma careful_sleep: "careful ok sleep"
  by (simp add: careful_def sleep_def grows_refl)

lemma careful_append_data: "careful ok (append_data x)"
  by (simp add: careful_def append_data_def grows_refl)

lemma careful_reset_data: "careful ok reset_data"
  by (simp add: careful_def reset_data_def grows_refl)

lemma careful_get: "(\<And>cs fs. ok cs fs url) \<Longrightarrow> careful ok (get world url)"
  by (auto simp: careful_def get_def grows_def)

lemma careful_bind:
  assumes "careful ok m" and "\<And>x. careful ok (f x)"
  shows "careful ok (bind m f)"
  unfolding careful_def
proof (intro allI impI)
  fix s r s'
  assume run: "bind m f s = (r, s')"
  obtain r1 s1 where m: "m s = (r1, s1)" by (cases "m s")
  with assms(1) have g1: "grows ok s s1" and f1: "fatal r1"
    by (auto simp: careful_def)
  show "grows ok s s' \<and> fatal r"
  proof (cases r1)
    case (Inl e)
    with run m g1 f1 show ?thesis by (auto simp: bind_def)
  next
    case (Inr x)
    with run m have "f x s1 = (r, s')" by (simp add: bind_def)
    with assms(2) [of x] have "grows ok s1 s'" "fatal r"
      by (auto simp: careful_def)
    with g1 show ?thesis by (blast intro: grows_trans)
  qed
qed

lemma careful_fail: "careful ok (fail fmt as)"
  unfolding fail_def by (intro careful_bind careful_say careful_raise) simp

lemma careful_mono:
  "careful ok' m \<Longrightarrow> (\<And>cs fs u. ok' cs fs u \<Longrightarrow> ok cs fs u) \<Longrightarrow> careful ok m"
  unfolding careful_def by (blast intro: grows_mono)

lemmas careful_intros = careful_bind careful_return careful_say careful_sleep careful_fail
  careful_append_data careful_reset_data careful_lift careful_raise

text \<open>Every exception of the pure helpers ends the process with status 1.\<close>

lemma fatal_subscript: "fatal (subscript j k)"
  by (cases j) (auto split: option.splits)

lemma fatal_index0: "fatal (index0 j)"
  by (cases j rule: index0.cases) auto

lemma fatal_items: "fatal (items j)"
  by (cases j) auto

lemma fatal_py_len: "fatal (py_len j)"
  by (cases j) auto

lemma fatal_iterate: "fatal (iterate j)"
  by (cases j) auto

lemma fatal_label_replace: "fatal (label_replace j)"
  by (cases j) auto

lemma fatal_attr: "fatal (attr t k)"
  by (auto simp: attr_def split: option.splits)

lemma fatal_str_method: "fatal (str_method n)"
  by (cases n) auto

lemma fatal_dot_text: "fatal (dot_text n)"
  by (cases n) auto

lemma fatal_manifest: "fatal (manifest kvs)"
proof (induction kvs)
  case Nil
  show ?case by simp
next
  case (Cons kv kvs)
  obtain k v where kv: "kv = (k, v)" by (cases kv)
  show ?case
  proof (cases "index0 v")
    case (Inl e)
    with fatal_index0 [of v] kv show ?thesis by simp
  next
    case c: (Inr c)
    show ?thesis
    proof (cases "subscript c (lit ''url'')")
      case (Inl e)
      with fatal_subscript [of c "lit ''url''"] kv c show ?thesis by simp
    next
      case (Inr u)
      with Cons kv c show ?thesis by (cases "manifest kvs") auto
    qed
  qed
qed

lemma fatal_pbind: "fatal r \<Longrightarrow> (\<And>x. fatal (f x)) \<Longrightarrow> fatal (pbind r f)"
  by (cases r) (auto simp: pbind_def)

lemma fatal_extract_film_data: "fatal (extract_film_data a)"
  unfolding extract_film_data_def
  by (cases a) (auto intro!: fatal_pbind fatal_attr)

lemma fatal_if: "(c \<Longrightarrow> fatal a) \<Longrightarrow> (\<not> c \<Longrightarrow> fatal b) \<Longrightarrow> fatal (if c then a else b)"
  by simp

lemma fatal_date_fields: "fatal (date_fields soup d)"
  unfolding date_fields_def Let_def
  by (intro fatal_pbind fatal_if fatal_str_method)
     (auto split: option.splits list.splits intro: fatal_str_method)

lemma fatal_main_artist_fields: "fatal (main_artist_fields soup d)"
  unfolding main_artist_fields_def Let_def
  by (intro fatal_pbind fatal_if fatal_dot_text) (auto split: option.splits)

lemma fatal_concert_fields: "fatal (concert_fields cid soup)"
  unfolding concert_fields_def
  by (intro fatal_pbind fatal_date_fields fatal_main_artist_fields) simp

lemmas fatal_intros = fatal_subscript fatal_index0 fatal_items fatal_py_len fatal_iterate
  fatal_label_replace fatal_attr fatal_manifest fatal_extract_film_data fatal_concert_fields

lemma careful_get_streams:
  "(\<And>cs fs. ok cs fs (streams_url cid)) \<Longrightarrow> careful ok (get_streams world cid)"
  unfolding get_streams_def
  by (auto intro!: careful_intros careful_get simp: fatal_intros split: reply.splits option.splits)

lemma careful_get_seasons: "careful concert_run_url (get_seasons world)"
  unfolding get_seasons_def
  by (auto intro!: careful_intros careful_get simp: fatal_intros concert_run_url_def
           split: reply.splits option.splits)

lemma careful_get_films: "careful film_run_url (get_films world)"
  unfolding get_films_def Let_def
  by (auto intro!: careful_intros careful_get simp: fatal_intros film_run_url_def
           split: reply.splits option.splits)

lemma careful_extract_piece: "careful ok (extract_piece streams piece)"
  unfolding extract_piece_def Let_def
  by (auto intro!: careful_intros simp: fatal_intros split: option.splits)

lemma careful_pieces_loop: "careful ok (pieces_loop streams ps acc)"
  by (induction ps arbitrary: acc) (auto intro!: careful_intros careful_extract_piece)

lemma careful_extract_metadata:
  "(\<And>cs fs. ok cs fs (streams_url cid)) \<Longrightarrow> careful ok (extract_metadata world cid soup)"
  unfolding extract_metadata_def
  by (auto intro!: careful_intros careful_get_streams careful_pieces_loop simp: fatal_intros)

lemma careful_handle_concert: "careful concert_run_url (handle_concert world cid)"
  unfolding careful_def
proof (intro allI impI)
  fix s r s'
  assume run: "handle_concert world cid s = (r, s')"
  show "grows concert_run_url s s' \<and> fatal r"
  proof (cases "cid \<in> set (concert_id_list s)")
    case True
    with run have "bind (say DEBUG ''Skipping concert with ID {concert_id} because it already exists''
                [S cid]) (\<lambda>_. return None) s = (r, s')"
      by (simp add: handle_concert_def)
    moreover have "careful concert_run_url
       (bind (say DEBUG ''Skipping concert with ID {concert_id} because it already exists''
                [S cid]) (\<lambda>_. return (None :: json option)))"
      by (intro careful_intros)
    ultimately show ?thesis unfolding careful_def by blast
  next
    case False
    define ok' where "ok' = (\<lambda>(cs :: ustr list) (fs :: ustr list) u. u = concert_url cid \<or> u = streams_url cid)"
    define A where "A =
        bind (say DEBUG ''Scraping concert with ID {concert_id}...'' [S cid]) (\<lambda>_.
        bind (get world (concert_url cid)) (\<lambda>r.
        case r of
          HTTPError httpe \<Rightarrow>
            fail ''Get concert with ID {concert_id} failed with http error: {httpe}''
              [S cid, S httpe]
        | ConnectionError cerr \<Rightarrow>
            fail ''Get concert with ID {concert_id} failed with network problems: {cerr}''
              [S cid, S cerr]
        | Timeout \<Rightarrow> fail ''Get concert with ID {concert_id} timed out!'' [S cid]
        | RequestException err \<Rightarrow>
            fail ''Get concert with ID {concert_id} failed with request error: {err}''
              [S cid, S err]
        | Response r \<Rightarrow>
            bind (extract_metadata world cid (r_soup r)) (\<lambda>metaDict.
            return (Some metaDict))))"
    have "careful ok' A"
      unfolding A_def
      by (auto intro!: careful_intros careful_get careful_extract_metadata simp: ok'_def
               split: reply.splits)
    moreover from run False have "A s = (r, s')"
      by (simp add: handle_concert_def A_def)
    ultimately have g: "grows ok' s s'" and f: "fatal r"
      unfolding careful_def by blast+
    from g have "grows concert_run_url s s'"
      by (rule grows_mono) (use False in \<open>auto simp: ok'_def concert_run_url_def\<close>)
    with f show ?thesis by simp
  qed
qed

lemma careful_concert_loop: "careful concert_run_url (concert_loop world lis acc)"
  by (induction lis arbitrary: acc)
     (auto intro!: careful_intros careful_handle_concert simp: fatal_intros)

lemma careful_handle_season: "careful concert_run_url (handle_season rp world season)"
  unfolding handle_season_def
  by (auto intro!: careful_intros careful_get careful_concert_loop
           simp: fatal_intros concert_run_url_def split: reply.splits)

lemma careful_season_loop: "careful concert_run_url (season_loop rp world seasons)"
  by (induction seasons) (auto intro!: careful_intros careful_handle_season)

lemma careful_seasons_walk: "careful concert_run_url (seasons_walk rp world)"
  unfolding seasons_walk_def
  by (auto intro!: careful_intros careful_get_seasons careful_season_loop simp: fatal_intros)

lemma careful_handle_film: "careful film_run_url (handle_film world film)"
  unfolding careful_def
proof (intro allI impI)
  fix s r s'
  assume run: "handle_film world film s = (r, s')"
  show "grows film_run_url s s' \<and> fatal r"
  proof (cases "\<exists>fid. dict_get film (lit ''film_id'') = Some (JStr fid)")
    case False
    with run show ?thesis
      by (auto simp: handle_film_def raise_def grows_refl split: option.splits json.splits)
  next
    case True
    then obtain fid where fid: "dict_get film (lit ''film_id'') = Some (JStr fid)" by blast
    show ?thesis
    proof (cases "fid \<in> set (film_id_list s)")
      case True
      with run fid show ?thesis
        by (auto simp: handle_film_def say_def grows_refl)
    next
      case False
      define ok' where "ok' = (\<lambda>(cs :: ustr list) (fs :: ustr list) u. u = film_url fid \<or> u = streams_url fid)"
      define A where "A =
            bind (say DEBUG ''Scraping film with ID {film_id}...'' [S fid]) (\<lambda>_.
            bind (get world (film_url fid)) (\<lambda>r.
            case r of
              HTTPError httpe \<Rightarrow>
                fail ''Get film with ID {film_id} failed with http error: {httpe}'' [S fid, S httpe]
            | ConnectionError cerr \<Rightarrow>
                fail ''Get film with ID {film_id} failed with network problems: {cerr}''
                  [S fid, S cerr]
            | Timeout \<Rightarrow> fail ''Get film with ID {film_id} timed out!'' [S fid]
            | RequestException err \<Rightarrow>
                fail ''Get film with ID {film_id} failed with request error: {err}'' [S fid, S err]
            | Response r \<Rightarrow>
                bind (get_streams world fid) (\<lambda>streams.
                bind (case dict_get streams fid of
                        Some u \<Rightarrow> return (dict_set film (lit ''streamUrl'') u)
                      | None \<Rightarrow>
                          bind (say WARNING ''No stream url found for film with ID {film_id}''
                                  [S fid]) (\<lambda>_.
                          return (dict_set film (lit ''streamUrl'') (JStr (lit ''not-found''))))) (\<lambda>film_dict.
                append_data (JObj (film_fields (r_soup r) film_dict))))))"
      have "careful ok' A"
        unfolding A_def
        by (auto intro!: careful_intros careful_get careful_get_streams simp: ok'_def
                 split: reply.splits option.splits)
      moreover from run False fid have "A s = (r, s')"
        by (simp add: handle_film_def A_def)
      ultimately have g: "grows ok' s s'" and f: "fatal r"
        unfolding careful_def by blast+
      from g have "grows film_run_url s s'"
        by (rule grows_mono) (use False in \<open>auto simp: ok'_def film_run_url_def\<close>)
      with f show ?thesis by simp
    qed
  qed
qed

lemma careful_film_loop: "careful film_run_url (film_loop world lis)"
  by (induction lis)
     (auto intro!: careful_intros careful_handle_film simp: fatal_intros)

lemma careful_films_walk: "careful film_run_url (films_walk world)"
  unfolding films_walk_def
  by (auto intro!: careful_intros careful_get_films careful_film_loop)

text \<open>A run is its walk, then the write; nothing after the walk can fail.\<close>

lemma bind_assoc: "bind (bind m f) g = bind m (\<lambda>x. bind (f x) g)"
  by (auto simp: bind_def fun_eq_iff split: prod.splits sum.splits)

lemma scrape_seasons_walk:
  "scrape_seasons rp world =
     bind (seasons_walk rp world) (\<lambda>_.
     bind (say INFO ''Writing to file...'' []) (\<lambda>_.
     bind (write_output ''seasons'') (\<lambda>_.
     say INFO ''Done'' [])))"
  by (simp add: scrape_seasons_def seasons_walk_def bind_assoc)

lemma scrape_films_walk:
  "scrape_films world =
     bind (films_walk world) (\<lambda>_.
     bind (say INFO ''Writing to file...'' []) (\<lambda>_.
     bind (write_output ''films'') (\<lambda>_.
     say INFO ''Done'' [])))"
  by (simp add: scrape_films_def films_walk_def bind_assoc)

lemma run_cases:
  assumes "bind walk (\<lambda>_.
           bind (say INFO ''Writing to file...'' []) (\<lambda>_.
           bind (write_output out_name) (\<lambda>_.
           say INFO ''Done'' []))) s = (r, s')"
  obtains (failed) e where "walk s = (Inl e, s')" "r = Inl e"
  | (written) s1 where "walk s = (Inr (), s1)" "r = Inr ()"
      "files s' = files s1 @ [(out_name, data s1)]" "requests s' = requests s1"
      "concert_id_list s' = concert_id_list s1" "film_id_list s' = film_id_list s1"
      "data s' = data s1"
proof (cases "walk s")
  case (Pair r1 s1)
  show ?thesis
  proof (cases r1)
    case (Inl e)
    with Pair assms have "walk s = (Inl e, s')" "r = Inl e" by (auto simp: bind_def)
    then show ?thesis by (rule failed)
  next
    case (Inr u)
    with Pair assms have "walk s = (Inr (), s1)" "r = Inr ()"
      "files s' = files s1 @ [(out_name, data s1)]" "requests s' = requests s1"
      "concert_id_list s' = concert_id_list s1" "film_id_list s' = film_id_list s1"
      "data s' = data s1"
      by (auto simp: bind_def say_def write_output_def)
    then show ?thesis by (rule written)
  qed
qed

subsection \<open>Who touches the batch\<close>

lemma quiet_return: "quiet (return x)"
  by (simp add: quiet_def return_def)

lemma quiet_raise: "quiet (raise e)"
  by (simp add: quiet_def raise_def)

lemma quiet_lift: "quiet (lift r)"
  by (simp add: quiet_def lift_def)

lemma quiet_say: "quiet (say l fmt as)"
  by (simp add: quiet_def say_def)

lemma quiet_sleep: "quiet sleep"
  by (simp add: quiet_def sleep_def)

lemma quiet_get: "quiet (get world url)"
  by (simp add: quiet_def get_def)

lemma quiet_bind:
  assumes "quiet m" and "\<And>x. quiet (f x)"
  shows "quiet (bind m f)"
  unfolding quiet_def
proof (intro allI impI)
  fix s r s'
  assume run: "bind m f s = (r, s')"
  obtain r1 s1 where m: "m s = (r1, s1)" by (cases "m s")
  with assms(1) have d1: "data s1 = data s" by (simp add: quiet_def)
  show "data s' = data s"
  proof (cases r1)
    case (Inl e)
    with run m d1 show ?thesis by (simp add: bind_def)
  next
    case (Inr x)
    with run m have "f x s1 = (r, s')" by (simp add: bind_def)
    with assms(2) [of x] d1 show ?thesis by (simp add: quiet_def)
  qed
qed

lemma quiet_fail: "quiet (fail fmt as)"
  unfolding fail_def by (intro quiet_bind quiet_say quiet_raise)

lemmas quiet_intros = quiet_bind quiet_return quiet_say quiet_sleep quiet_fail quiet_lift
  quiet_raise quiet_get

lemma quiet_get_streams: "quiet (get_streams world cid)"
  unfolding get_streams_def
  by (auto intro!: quiet_intros split: reply.splits option.splits)

lemma quiet_extract_piece: "quiet (extract_piece streams piece)"
  unfolding extract_piece_def Let_def
  by (auto intro!: quiet_intros split: option.splits)

lemma quiet_pieces_loop: "quiet (pieces_loop streams ps acc)"
  by (induction ps arbitrary: acc) (auto intro!: quiet_intros quiet_extract_piece)

lemma quiet_extract_metadata: "quiet (extract_metadata world cid soup)"
  unfolding extract_metadata_def
  by (auto intro!: quiet_intros quiet_get_streams quiet_pieces_loop)

lemma quiet_handle_concert: "quiet (handle_concert world cid)"
  unfolding quiet_def
proof (intro allI impI)
  fix s r s'
  assume run: "handle_concert world cid s = (r, s')"
  define A where "A =
        bind (say DEBUG ''Scraping concert with ID {concert_id}...'' [S cid]) (\<lambda>_.
        bind (get world (concert_url cid)) (\<lambda>r.
        case r of
          HTTPError httpe \<Rightarrow>
            fail ''Get concert with ID {concert_id} failed with http error: {httpe}''
              [S cid, S httpe]
        | ConnectionError cerr \<Rightarrow>
            fail ''Get concert with ID {concert_id} failed with network problems: {cerr}''
              [S cid, S cerr]
        | Timeout \<Rightarrow> fail ''Get concert with ID {concert_id} timed out!'' [S cid]
        | RequestException err \<Rightarrow>
            fail ''Get concert with ID {concert_id} failed with request error: {err}''
              [S cid, S err]
        | Response r \<Rightarrow>
            bind (extract_metadata world cid (r_soup r)) (\<lambda>metaDict.
            return (Some metaDict))))"
  have qa: "quiet A"
    unfolding A_def
    by (auto intro!: quiet_intros quiet_extract_metadata split: reply.splits)
  show "data s' = data s"
  proof (cases "cid \<in> set (concert_id_list s)")
    case True
    with run show ?thesis by (auto simp: handle_concert_def bind_def say_def return_def)
  next
    case False
    with run have "A s = (r, s')" by (simp add: handle_concert_def A_def)
    with qa show ?thesis by (simp add: quiet_def)
  qed
qed

lemma quiet_concert_loop: "quiet (concert_loop world lis acc)"
  by (induction lis arbitrary: acc) (auto intro!: quiet_intros quiet_handle_concert)

subsection \<open>What a run that returns has done\<close>

lemma concert_keys:
  "lit ''concertId'' \<noteq> lit ''concertTitle''" "lit ''concertId'' \<noteq> lit ''concertProgramme''"
  "lit ''concertId'' \<noteq> lit ''concertProgrammeGuide''" "lit ''concertId'' \<noteq> lit ''concertDate''"
  "lit ''concertId'' \<noteq> lit ''concertMeta''" "lit ''concertId'' \<noteq> lit ''mainArtist''"
  "lit ''concertId'' \<noteq> lit ''conductor''" "lit ''concertId'' \<noteq> lit ''starArtists''"
  "lit ''concertId'' \<noteq> lit ''support''" "lit ''concertId'' \<noteq> lit ''pieces''"
  by (simp_all add: lit_def)

lemma concert_fields_id:
  assumes "concert_fields cid soup = Inr d"
  shows "dict_get d (lit ''concertId'') = Some (JStr cid)"
proof -
  have 1: "dict_get (title_fields cid soup) (lit ''concertId'') = Some (JStr cid)"
    by (simp add: title_fields_def Let_def dict_get_set_opt_other concert_keys)
       (simp add: dict_get_def)
  have 2: "dict_get y (lit ''concertId'') = dict_get x (lit ''concertId'')"
    if "date_fields soup x = Inr y" for x y
    using that unfolding date_fields_def Let_def pbind_def
    by (auto simp: dict_get_dict_set concert_keys
             split: option.splits sum.splits list.splits if_splits)
  have 3: "dict_get y (lit ''concertId'') = dict_get x (lit ''concertId'')"
    if "main_artist_fields soup x = Inr y" for x y
    using that unfolding main_artist_fields_def Let_def pbind_def
    by (auto simp: dict_get_dict_set concert_keys
             split: option.splits sum.splits list.splits if_splits)
  have 4: "dict_get (support_fields soup x) (lit ''concertId'') = dict_get x (lit ''concertId'')"
    for x
    by (simp add: support_fields_def Let_def dict_get_dict_set dict_get_set_opt_other concert_keys)
  from assms obtain x y where "date_fields soup (title_fields cid soup) = Inr x"
    "main_artist_fields soup x = Inr y" "d = support_fields soup y"
    by (auto simp: concert_fields_def pbind_def split: sum.splits)
  with 1 2 3 4 show ?thesis by simp
qed

lemma resolves_iff: "resolves world ident \<longleftrightarrow> (\<exists>streams s'. get_streams world ident s = (Inr streams, s'))"
proof -
  have "fst (get_streams world ident s) = Inr m \<longleftrightarrow> fst (get_streams world ident st0) = Inr m" for m
    unfolding get_streams_def prog_defs
    by (auto split: reply.splits option.splits sum.splits if_splits)
  then show ?thesis
    unfolding resolves_def
    by (cases "get_streams world ident s"; cases "fst (get_streams world ident st0)") auto
qed

lemma handle_concert_seen:
  "cid \<in> set (concert_id_list s) \<Longrightarrow>
   handle_concert world cid s =
     (Inr None, s\<lparr>log := log s @
        [(DEBUG, ''Skipping concert with ID {concert_id} because it already exists'', [S cid])]\<rparr>)"
  by (simp add: handle_concert_def bind_def say_def return_def)

lemma handle_concert_unseen:
  assumes "handle_concert world cid s = (Inr res, s')" and "cid \<notin> set (concert_id_list s)"
  shows "\<exists>md. res = Some md \<and> field (lit ''concertId'') md = Some (JStr cid) \<and> resolves world cid"
proof -
  from assms obtain r md s1 where
    "extract_metadata world cid (r_soup r) s1 = (Inr md, s')" "res = Some md"
    "world (concert_url cid) = Response r"
    unfolding handle_concert_def bind_def say_def get_def fail_def raise_def return_def
    by (auto split: reply.splits prod.splits sum.splits)
  moreover from extract_metadata_Inr [OF this(1)] obtain streams t t' d pieces where
    "get_streams world cid t = (Inr streams, t')" "concert_fields cid (r_soup r) = Inr d"
    "md = JObj (dict_set d (lit ''pieces'') (JArr pieces))"
    by blast
  ultimately show ?thesis
    using concert_fields_id [of cid "r_soup r" d] resolves_iff [of world cid t]
    by (auto simp: field_def dict_get_dict_set concert_keys)
qed

lemma unseen_append: "unseen seen (xs @ ys) = unseen seen xs @ unseen seen ys"
  by (simp add: unseen_def)

lemma unseen_Cons:
  "unseen seen (x # xs) = (if x \<in> set seen then unseen seen xs else Some (JStr x) # unseen seen xs)"
  by (simp add: unseen_def)

lemma grows_lists:
  "grows ok s s' \<Longrightarrow> concert_id_list s' = concert_id_list s \<and> film_id_list s' = film_id_list s"
  by (simp add: grows_def)

lemma concert_loop_Inr:
  assumes "concert_loop world lis acc s = (Inr out, s')"
  shows "map (field (lit ''concertId'')) out =
           map (field (lit ''concertId'')) acc @ unseen (concert_id_list s) (map listed_id lis)
         \<and> (\<forall>c \<in> set (map listed_id lis). c \<notin> set (concert_id_list s) \<longrightarrow> resolves world c)"
  using assms
proof (induction lis arbitrary: acc s)
  case Nil
  then show ?case by (simp add: return_def unseen_def)
next
  case (Cons li lis)
  from Cons.prems obtain i res s1 where i: "attr li (lit ''id'') = Inr i"
    and hc: "handle_concert world (drop 8 i) s = (Inr res, s1)"
    and rest: "concert_loop world lis (case res of None \<Rightarrow> acc | Some d \<Rightarrow> acc @ [d])
                 (s1\<lparr>pauses := Suc (pauses s1)\<rparr>) = (Inr out, s')"
    by (auto simp: bind_def lift_def sleep_def split: prod.splits sum.splits)
  from careful_handle_concert hc have same: "concert_id_list s1 = concert_id_list s"
    unfolding careful_def by (blast dest: grows_lists)
  from i have li: "listed_id li = drop 8 i" by (simp add: listed_id_def)
  note IH = Cons.IH [OF rest]
  show ?case
  proof (cases "drop 8 i \<in> set (concert_id_list s)")
    case True
    with hc have "res = None" by (simp add: handle_concert_seen)
    with IH True li same show ?thesis by (simp add: unseen_Cons)
  next
    case False
    from handle_concert_unseen [OF hc False] obtain md where
      "res = Some md" "field (lit ''concertId'') md = Some (JStr (drop 8 i))"
      "resolves world (drop 8 i)"
      by blast
    with IH False li same show ?thesis by (simp add: unseen_Cons)
  qed
qed

lemma season_keys:
  "lit ''concerts'' \<noteq> lit ''seasonId''" "lit ''concerts'' \<noteq> lit ''season''"
  by (simp_all add: lit_def)

lemma handle_season_Inr:
  assumes "handle_season rp world season s = (Inr (), s')"
  shows "\<exists>rec. data s' = data s @ [rec] \<and>
           season_concert_ids rec = unseen (concert_id_list s) (season_listing rp world season) \<and>
           (\<forall>c \<in> set (season_listing rp world season).
              c \<notin> set (concert_id_list s) \<longrightarrow> resolves world c)"
proof -
  from assms obtain season_id label r season_label concerts s2 where
    sid: "subscript season (lit ''id'') = Inr season_id" and
    r: "world (season_url (py_str rp season_id)) = Response r" and
    loop: "concert_loop world (li_archive (r_soup r)) []
             (s\<lparr>log := log s @ [(DEBUG, ''Scraping season {label} with ID {season_id}...'',
                                  [J label, J season_id])],
                requests := requests s @ [season_url (py_str rp season_id)]\<rparr>) = (Inr concerts, s2)"
    and fin: "s' = s2\<lparr>data := data s2 @
                 [JObj [(lit ''seasonId'', season_id), (lit ''season'', JStr season_label),
                        (lit ''concerts'', JArr concerts)]]\<rparr>"
    unfolding handle_season_def bind_def say_def get_def fail_def raise_def return_def
      append_data_def lift_def
    by (auto split: reply.splits prod.splits sum.splits)
  from quiet_concert_loop loop have d2: "data s2 = data s"
    unfolding quiet_def by fastforce
  have listing: "season_listing rp world season = map listed_id (li_archive (r_soup r))"
    by (simp add: season_listing_def sid r)
  have "season_concert_ids (JObj [(lit ''seasonId'', season_id), (lit ''season'', JStr season_label),
                        (lit ''concerts'', JArr concerts)]) = map (field (lit ''concertId'')) concerts"
    by (simp add: season_concert_ids_def list_field_def field_def dict_get_def season_keys)
  with concert_loop_Inr [OF loop] fin d2 listing show ?thesis by simp
qed

lemma batch_concert_ids_append:
  "batch_concert_ids (xs @ ys) = batch_concert_ids xs @ batch_concert_ids ys"
  by (simp add: batch_concert_ids_def)

lemma season_loop_Inr:
  assumes "season_loop rp world seasons s = (Inr (), s')"
  shows "\<exists>recs. data s' = data s @ recs \<and>
           batch_concert_ids recs =
             unseen (concert_id_list s) (concat (map (season_listing rp world) seasons)) \<and>
           (\<forall>c \<in> set (concat (map (season_listing rp world) seasons)).
              c \<notin> set (concert_id_list s) \<longrightarrow> resolves world c)"
  using assms
proof (induction seasons arbitrary: s)
  case Nil
  then show ?case by (simp add: return_def unseen_def batch_concert_ids_def)
next
  case (Cons season seasons)
  from Cons.prems obtain s1 where hs: "handle_season rp world season s = (Inr (), s1)"
    and rest: "season_loop rp world seasons (s1\<lparr>pauses := Suc (pauses s1)\<rparr>) = (Inr (), s')"
    by (auto simp: bind_def sleep_def split: prod.splits sum.splits)
  from careful_handle_season hs have same: "concert_id_list s1 = concert_id_list s"
    unfolding careful_def by (blast dest: grows_lists)
  from handle_season_Inr [OF hs] obtain rec where rec: "data s1 = data s @ [rec]"
    "season_concert_ids rec = unseen (concert_id_list s) (season_listing rp world season)"
    "\<forall>c \<in> set (season_listing rp world season). c \<notin> set (concert_id_list s) \<longrightarrow> resolves world c"
    by blast
  from Cons.IH [OF rest] same obtain recs where recs: "data s' = data s1 @ recs"
    "batch_concert_ids recs =
       unseen (concert_id_list s) (concat (map (season_listing rp world) seasons))"
    "\<forall>c \<in> set (concat (map (season_listing rp world) seasons)).
        c \<notin> set (concert_id_list s) \<longrightarrow> resolves world c"
    by auto
  have "batch_concert_ids (rec # recs) =
          unseen (concert_id_list s) (concat (map (season_listing rp world) (season # seasons)))"
    using rec(2) recs(2) by (simp add: batch_concert_ids_def unseen_append)
  moreover have "data s' = data s @ rec # recs" using rec(1) recs(1) by simp
  moreover have "\<forall>c \<in> set (concat (map (season_listing rp world) (season # seasons))).
        c \<notin> set (concert_id_list s) \<longrightarrow> resolves world c"
    using rec(3) recs(3) by auto
  ultimately show ?case by blast
qed

lemma get_seasons_Inr:
  assumes "get_seasons world s = (Inr its, s')"
  shows "\<exists>r j. world seasons_url = Response r \<and> r_json r = Some j \<and>
           subscript j (lit ''items'') = Inr its"
    and "data s' = data s" and "concert_id_list s' = concert_id_list s"
  using assms unfolding get_seasons_def prog_defs
  by (auto split: reply.splits option.splits sum.splits if_splits)

lemma seasons_walk_Inr:
  assumes "seasons_walk rp world s = (Inr (), s')"
  shows "batch_concert_ids (data s') = unseen (concert_id_list s) (concert_catalog rp world)
         \<and> (\<forall>c \<in> set (concert_catalog rp world).
              c \<notin> set (concert_id_list s) \<longrightarrow> resolves world c)"
proof -
  from assms obtain its s1 seasons where
    gs: "get_seasons world (s\<lparr>data := []\<rparr>) = (Inr its, s1)" and
    it: "iterate its = Inr seasons" and
    loop: "season_loop rp world seasons s1 = (Inr (), s')"
    unfolding seasons_walk_def bind_def reset_data_def lift_def
    by (auto split: prod.splits sum.splits)
  from get_seasons_Inr [OF gs] it have cat: "catalog_seasons world = seasons"
    and d1: "data s1 = []" and l1: "concert_id_list s1 = concert_id_list s"
    by (auto simp: catalog_seasons_def)
  from season_loop_Inr [OF loop] d1 l1 cat show ?thesis
    by (auto simp: concert_catalog_def)
qed

lemma extract_film_data_id:
  "extract_film_data li = Inr film \<Longrightarrow>
   dict_get film (lit ''film_id'') = Some (JStr (listed_film_id li))"
  by (auto simp: extract_film_data_def listed_film_id_def pbind_def dict_get_def
           split: option.splits sum.splits)

lemma handle_film_seen:
  "dict_get film (lit ''film_id'') = Some (JStr fid) \<Longrightarrow> fid \<in> set (film_id_list s) \<Longrightarrow>
   handle_film world film s =
     (Inr (), s\<lparr>log := log s @
        [(DEBUG, ''Skipping film with ID {film_id} because it already exists'', [S fid])]\<rparr>)"
  by (simp add: handle_film_def say_def)

lemma handle_film_unseen:
  assumes "handle_film world film s = (Inr (), s')"
    and "dict_get film (lit ''film_id'') = Some (JStr fid)"
    and "fid \<notin> set (film_id_list s)"
  shows "\<exists>rec. data s' = data s @ [rec] \<and> field (lit ''film_id'') rec = Some (JStr fid) \<and>
           resolves world fid"
proof -
  from handle_film_Inr [OF assms] obtain r streams t t' where
    r: "world (film_url fid) = Response r" and
    gs: "get_streams world fid t = (Inr streams, t')" and
    dt: "data s' = data s @
             [JObj (film_fields (r_soup r)
                      (dict_set film (lit ''streamUrl'') (spec_stream_url streams fid)))]"
    by blast
  have "field (lit ''film_id'')
      (JObj (film_fields (r_soup r)
               (dict_set film (lit ''streamUrl'') (spec_stream_url streams fid)))) = Some (JStr fid)"
    using assms(2) by (simp add: field_def film_fields_other film_keys dict_get_dict_set)
  with dt gs resolves_iff [of world fid t] show ?thesis by auto
qed

lemma film_loop_Inr:
  assumes "film_loop world lis s = (Inr (), s')"
  shows "\<exists>recs. data s' = data s @ recs \<and>
           batch_film_ids recs = unseen (film_id_list s) (map listed_film_id lis) \<and>
           (\<forall>f \<in> set (map listed_film_id lis). f \<notin> set (film_id_list s) \<longrightarrow> resolves world f)"
  using assms
proof (induction lis arbitrary: s)
  case Nil
  then show ?case by (simp add: return_def unseen_def batch_film_ids_def)
next
  case (Cons li lis)
  from Cons.prems obtain film s1 where ex: "extract_film_data li = Inr film"
    and hf: "handle_film world film s = (Inr (), s1)"
    and rest: "film_loop world lis (s1\<lparr>pauses := Suc (pauses s1)\<rparr>) = (Inr (), s')"
    by (auto simp: bind_def lift_def sleep_def split: prod.splits sum.splits)
  from careful_handle_film hf have same: "film_id_list s1 = film_id_list s"
    unfolding careful_def by (blast dest: grows_lists)
  note fid = extract_film_data_id [OF ex]
  from Cons.IH [OF rest] same obtain recs where recs: "data s' = data s1 @ recs"
    "batch_film_ids recs = unseen (film_id_list s) (map listed_film_id lis)"
    "\<forall>f \<in> set (map listed_film_id lis). f \<notin> set (film_id_list s) \<longrightarrow> resolves world f"
    by auto
  show ?case
  proof (cases "listed_film_id li \<in> set (film_id_list s)")
    case True
    with hf fid have "data s1 = data s" by (auto simp: handle_film_seen)
    with recs True show ?thesis by (auto simp: unseen_Cons)
  next
    case False
    from handle_film_unseen [OF hf fid False] obtain rec where rec: "data s1 = data s @ [rec]"
      "field (lit ''film_id'') rec = Some (JStr (listed_film_id li))"
      "resolves world (listed_film_id li)"
      by blast
    have "batch_film_ids (rec # recs) = unseen (film_id_list s) (map listed_film_id (li # lis))"
      using rec(2) recs(2) False by (simp add: batch_film_ids_def unseen_Cons)
    moreover have "data s' = data s @ rec # recs" using rec(1) recs(1) by simp
    moreover have "\<forall>f \<in> set (map listed_film_id (li # lis)).
        f \<notin> set (film_id_list s) \<longrightarrow> resolves world f"
      using rec(3) recs(3) by auto
    ultimately show ?thesis by blast
  qed
qed

lemma get_films_Inr:
  assumes "get_films world s = (Inr lis, s')"
  shows "\<exists>r. world films_url = Response r \<and> lis = li_item_a (r_soup r)"
    and "data s' = data s" and "film_id_list s' = film_id_list s"
  using assms unfolding get_films_def prog_defs Let_def
  by (auto split: reply.splits)

lemma films_walk_Inr:
  assumes "films_walk world s = (Inr (), s')"
  shows "batch_film_ids (data s') = unseen (film_id_list s) (film_catalog world)
         \<and> (\<forall>f \<in> set (film_catalog world). f \<notin> set (film_id_list s) \<longrightarrow> resolves world f)"
proof -
  from assms obtain lis s1 where
    gf: "get_films world (s\<lparr>data := []\<rparr>) = (Inr lis, s1)" and
    loop: "film_loop world lis s1 = (Inr (), s')"
    unfolding films_walk_def bind_def reset_data_def
    by (auto split: prod.splits sum.splits)
  from get_films_Inr [OF gf] have cat: "film_catalog world = map listed_film_id lis"
    and d1: "data s1 = []" and l1: "film_id_list s1 = film_id_list s"
    by (auto simp: film_catalog_def)
  from film_loop_Inr [OF loop] d1 l1 cat show ?thesis by auto
qed

subsection \<open>The URLs of the site\<close>

lemma seen_concert_urls:
  assumes "cid \<in> set seen"
  shows "\<not> concert_run_url seen fseen (concert_url cid)"
    and "\<not> concert_run_url seen fseen (streams_url cid)"
  using assms
  by (auto simp: concert_run_url_def concert_url_def streams_url_def seasons_url_def
        season_url_def lit_def)

subsection \<open>A run that fails writes nothing\<close>

lemma failed_walk_no_file:
  assumes "careful ok (walk :: unit prog)"
    and "bind walk (\<lambda>_.
           bind (say INFO ''Writing to file...'' []) (\<lambda>_.
           bind (write_output out_name) (\<lambda>_.
           say INFO ''Done'' []))) s = (Inl e, s')"
  shows "files s' = files s \<and> exit_status e \<noteq> 0"
  using assms(2)
proof (cases rule: run_cases)
  case (failed e')
  with assms(1) have "grows ok s s'" "fatal (Inl e' :: abort + unit)"
    unfolding careful_def by blast+
  with failed show ?thesis by (simp add: grows_def)
next
  case (written s1)
  then show ?thesis by simp
qed


lemma scrape_seasons_failed:
  "scrape_seasons rp world s = (Inl e, s') \<Longrightarrow> files s' = files s \<and> exit_status e \<noteq> 0"
  unfolding scrape_seasons_walk by (rule failed_walk_no_file [OF careful_seasons_walk])

lemma scrape_films_Inr:
  assumes "scrape_films world s = (Inr (), s')"
  shows "written s s' = [(''films'', data s')]"
    and "batch_film_ids (data s') = unseen (film_id_list s) (film_catalog world)"
    and "\<forall>f \<in> set (film_catalog world). f \<notin> set (film_id_list s) \<longrightarrow> resolves world f"
    and "film_id_list s' = film_id_list s" and "concert_id_list s' = concert_id_list s"
proof -
  from assms [unfolded scrape_films_walk] obtain s1 where
    walk: "films_walk world s = (Inr (), s1)" and f: "files s' = files s1 @ [(''films'', data s1)]"
    and l: "film_id_list s' = film_id_list s1" "concert_id_list s' = concert_id_list s1"
    and d: "data s' = data s1"
    by (cases rule: run_cases) auto
  from careful_films_walk walk have g: "grows film_run_url s s1"
    unfolding careful_def by blast
  then show "written s s' = [(''films'', data s')]"
    using f d by (simp add: written_def grows_def)
  from films_walk_Inr [OF walk] d
  show "batch_film_ids (data s') = unseen (film_id_list s) (film_catalog world)"
    and "\<forall>f \<in> set (film_catalog world). f \<notin> set (film_id_list s) \<longrightarrow> resolves world f"
    by simp_all
  from g l show "film_id_list s' = film_id_list s" and "concert_id_list s' = concert_id_list s"
    by (simp_all add: grows_def)
qed

lemma scrape_seasons_Inr:
  assumes "scrape_seasons rp world s = (Inr (), s')"
  shows "written s s' = [(''seasons'', data s')]"
    and "batch_concert_ids (data s') = unseen (concert_id_list s) (concert_catalog rp world)"
    and "\<forall>c \<in> set (concert_catalog rp world). c \<notin> set (concert_id_list s) \<longrightarrow> resolves world c"
    and "film_id_list s' = film_id_list s" and "concert_id_list s' = concert_id_list s"
proof -
  from assms [unfolded scrape_seasons_walk] obtain s1 where
    walk: "seasons_walk rp world s = (Inr (), s1)"
    and f: "files s' = files s1 @ [(''seasons'', data s1)]"
    and l: "film_id_list s' = film_id_list s1" "concert_id_list s' = concert_id_list s1"
    and d: "data s' = data s1"
    by (cases rule: run_cases) auto
  from careful_seasons_walk walk have g: "grows concert_run_url s s1"
    unfolding careful_def by blast
  then show "written s s' = [(''seasons'', data s')]"
    using f d by (simp add: written_def grows_def)
  from seasons_walk_Inr [OF walk] d
  show "batch_concert_ids (data s') = unseen (concert_id_list s) (concert_catalog rp world)"
    and "\<forall>c \<in> set (concert_catalog rp world). c \<notin> set (concert_id_list s) \<longrightarrow> resolves world c"
    by simp_all
  from g l show "film_id_list s' = film_id_list s" and "concert_id_list s' = concert_id_list s"
    by (simp_all add: grows_def)
qed

lemma scrape_seasons_requests:
  assumes "scrape_seasons rp world s = (r, s')"
  shows "\<forall>u \<in> set (issued s s'). concert_run_url (concert_id_list s) (film_id_list s) u"
proof -
  from assms [unfolded scrape_seasons_walk] obtain r1 s1 where
    walk: "seasons_walk rp world s = (r1, s1)" and rq: "requests s' = requests s1"
    by (cases rule: run_cases) auto
  from careful_seasons_walk walk have "grows concert_run_url s s1"
    unfolding careful_def by blast
  with rq show ?thesis by (auto simp: grows_def issued_def)
qed

lemma distinct_unseen: "distinct ids \<Longrightarrow> distinct (unseen seen ids)"
  by (simp add: unseen_def distinct_map inj_on_def)

lemma unseen_not_seen: "i \<in> set seen \<Longrightarrow> Some (JStr i) \<notin> set (unseen seen ids)"
  by (auto simp: unseen_def)

subsection \<open>The example site, evaluated\<close>

lemmas eval_defs =
  extract_piece_def duo_piece_def odd_piece_def bare_piece_def work_div_def attr_def
  usual_h2_def odd_h2_def duo_p_def bare_p_def tag_of_def header_fields_def artist_fields_def
  artist_list_def artist_groups_def make_dict_def make_dict_step_def piece_artists_def
  fold_roles_def collapse_def py_split_def py_strip_def py_lstrip_def py_rstrip_def
  py_isspace_def py_replace_def KEINE_ROLLE_def KEINER_def RIGHT_QUOTE_def EN_DASH_def
  APOSTROPHE_def HYPHEN_def dict_get_def lit_def st0_def no_soup_def json_response_def
  html_response_def mock_envelope_def mock_urls_def demo_world_def demo_index_def
  demo_listing_def demo_concert_page_def demo_film_link_def demo_film_link_8_def
  demo_films_page_def twice_films_page_def demo_film_page_def demo_label_def demo_piece_42_def
  demo_piece_7_def demo_concert_def demo_film_entry_def demo_film_def demo_season_def
  twice_world_def denied_world_def denied_envelope_def demo_start_def no_repr_def
  seasons_url_def season_url_def concert_url_def films_url_def film_url_def streams_url_def
  get_streams_def get_seasons_def concert_fields_def title_fields_def date_fields_def
  main_artist_fields_def support_fields_def set_opt_def pbind_def extract_metadata_def
  handle_concert_def handle_season_def scrape_seasons_def extract_film_data_def get_films_def
  film_fields_def handle_film_def scrape_films_def append_data_def reset_data_def
  write_output_def last_segment_def issued_def written_def

lemma demo_extract_metadata:
  "fst (extract_metadata demo_world (lit ''42'') demo_concert_page st0) = Inr demo_concert"
  by (simp add: eval_defs prog_defs)

lemma demo_handle_film:
  "fst (handle_film demo_world demo_film_entry st0) = Inr () \<and>
   data (snd (handle_film demo_world demo_film_entry st0)) = [demo_film]"
  by (simp add: eval_defs prog_defs)

lemma demo_scrape_seasons:
  "fst (scrape_seasons no_repr demo_world demo_start) = Inr () \<and>
   issued demo_start (snd (scrape_seasons no_repr demo_world demo_start)) =
     [seasons_url, season_url (lit ''2020''), concert_url (lit ''42''), streams_url (lit ''42'')] \<and>
   written demo_start (snd (scrape_seasons no_repr demo_world demo_start)) =
     [(''seasons'', [demo_season])]"
  by (simp add: eval_defs prog_defs)

lemma demo_scrape_films:
  "fst (scrape_films demo_world demo_start) = Inr () \<and>
   written demo_start (snd (scrape_films demo_world demo_start)) = [(''films'', [demo_film])]"
  by (simp add: eval_defs prog_defs)

lemma twice_scrape_films:
  "fst (scrape_films twice_world st0) = Inr () \<and>
   written st0 (snd (scrape_films twice_world st0)) = [(''films'', [demo_film, demo_film])]"
  by (simp add: eval_defs prog_defs)


lemma demo_catalogs:
  "concert_catalog no_repr demo_world = [lit ''42'', lit ''991231'']"
  "film_catalog demo_world = [lit ''7'', lit ''8'']"
  "film_catalog twice_world = [lit ''7'', lit ''7'']"
  "concert_catalog no_repr denied_world = [lit ''42'', lit ''991231'']"
  by (simp_all add: concert_catalog_def catalog_seasons_def season_listing_def listed_id_def
        film_catalog_def listed_film_id_def eval_defs)

text \<open>
  The witness of C1 on the example site: the piece \<open>42\<close> gets the first URL of the mock
  envelope, the piece \<open>7\<close> and the film \<open>7\<close>, for which the map has nothing, get
  \<open>not-found\<close>.
\<close>

theorem stream_url_never_absent_witness:
  "fst (extract_metadata demo_world (lit ''42'') demo_concert_page st0) = Inr demo_concert
   \<and> map (field (lit ''streamUrl'')) (list_field (lit ''pieces'') demo_concert) =
       [Some (JStr (lit ''https://x/a'')), Some (JStr (lit ''not-found''))]
   \<and> length (list_field (lit ''pieces'') demo_concert) = length (list_lines_li demo_concert_page)
   \<and> data (snd (handle_film demo_world demo_film_entry st0)) = [demo_film]
   \<and> field (lit ''streamUrl'') demo_film = Some (JStr (lit ''not-found''))"
proof -
  have run1: "extract_metadata demo_world (lit ''42'') demo_concert_page st0 =
      (Inr demo_concert, snd (extract_metadata demo_world (lit ''42'') demo_concert_page st0))"
    using demo_extract_metadata by (simp add: prod_eq_iff)
  have run2: "handle_film demo_world demo_film_entry st0 =
      (Inr (), snd (handle_film demo_world demo_film_entry st0))"
    using demo_handle_film by (simp add: prod_eq_iff)
  have id2: "dict_get demo_film_entry (lit ''film_id'') = Some (JStr (lit ''7''))"
    by (simp add: demo_film_entry_def dict_get_def)
  have unseen2: "lit ''7'' \<notin> set (film_id_list st0)"
    by (simp add: st0_def)
  from stream_url_never_absent
    [of demo_world "lit ''42''" demo_concert_page st0 demo_concert
        "snd (extract_metadata demo_world (lit ''42'') demo_concert_page st0)"
        demo_world demo_film_entry st0 "snd (handle_film demo_world demo_film_entry st0)" "lit ''7''"]
    run1 run2 id2 unseen2
  have "length (list_field (lit ''pieces'') demo_concert) = length (list_lines_li demo_concert_page)"
    by auto
  moreover have "map (field (lit ''streamUrl'')) (list_field (lit ''pieces'') demo_concert) =
       [Some (JStr (lit ''https://x/a'')), Some (JStr (lit ''not-found''))]"
    by (simp add: demo_concert_def demo_piece_42_def demo_piece_7_def list_field_def field_def
          dict_get_def lit_def)
  moreover have "field (lit ''streamUrl'') demo_film = Some (JStr (lit ''not-found''))"
    by (simp add: demo_film_def field_def dict_get_def lit_def)
  ultimately show ?thesis using demo_extract_metadata demo_handle_film by simp
qed

subsection \<open>Skipping what was seen\<close>

text \<open>
  C3. For a concert identifier of the seen list, \<open>__handle_concert\<close> returns \<open>None\<close>
  and changes nothing but the log: the membership test comes first. A concert run, whatever
  its outcome, requests neither the page of that concert nor its stream lookup, and a batch
  it writes has no Concert with that identifier.
\<close>

theorem seen_concert_skipped:
  assumes "cid \<in> set (concert_id_list s)"
    and "scrape_seasons rp world s = (r, s')"
  shows "handle_concert world cid s =
           (Inr None, s\<lparr>log := log s @
              [(DEBUG, ''Skipping concert with ID {concert_id} because it already exists'',
                [S cid])]\<rparr>)
         \<and> concert_url cid \<notin> set (issued s s') \<and> streams_url cid \<notin> set (issued s s')
         \<and> (\<forall>b \<in> set (written s s'). Some (JStr cid) \<notin> set (batch_concert_ids (snd b)))"
proof -
  from scrape_seasons_requests [OF assms(2)] seen_concert_urls [OF assms(1)]
  have rq: "concert_url cid \<notin> set (issued s s')" "streams_url cid \<notin> set (issued s s')"
    by blast+
  have "\<forall>b \<in> set (written s s'). Some (JStr cid) \<notin> set (batch_concert_ids (snd b))"
  proof (cases r)
    case (Inl e)
    with assms(2) have "files s' = files s" by (simp add: scrape_seasons_failed)
    then show ?thesis by (simp add: written_def)
  next
    case (Inr u)
    with assms(2) have run: "scrape_seasons rp world s = (Inr (), s')" by simp
    from scrape_seasons_Inr(1,2) [OF run] unseen_not_seen [OF assms(1)]
    show ?thesis by simp
  qed
  with rq handle_concert_seen [OF assms(1)] show ?thesis by simp
qed

theorem seen_concert_skipped_witness:
  "lit ''991231'' \<in> set (concert_catalog no_repr demo_world)
   \<and> lit ''991231'' \<in> set (concert_id_list demo_start)
   \<and> fst (scrape_seasons no_repr demo_world demo_start) = Inr ()
   \<and> issued demo_start (snd (scrape_seasons no_repr demo_world demo_start)) =
       [seasons_url, season_url (lit ''2020''), concert_url (lit ''42''), streams_url (lit ''42'')]
   \<and> concert_url (lit ''991231'')
       \<notin> set (issued demo_start (snd (scrape_seasons no_repr demo_world demo_start)))
   \<and> written demo_start (snd (scrape_seasons no_repr demo_world demo_start)) =
       [(''seasons'', [demo_season])]
   \<and> Some (JStr (lit ''991231'')) \<notin> set (batch_concert_ids [demo_season])"
proof -
  have seen: "lit ''991231'' \<in> set (concert_id_list demo_start)"
    by (simp add: demo_start_def st0_def)
  have run: "scrape_seasons no_repr demo_world demo_start =
      (Inr (), snd (scrape_seasons no_repr demo_world demo_start))"
    using demo_scrape_seasons by (simp add: prod_eq_iff)
  from seen_concert_skipped [OF seen run] demo_scrape_seasons seen show ?thesis
    by (simp add: demo_catalogs)
qed

subsection \<open>At most once\<close>

text \<open>
  C9 fails as it is written: on the site whose film index lists film \<open>7\<close> twice, a run
  from an empty seen list writes the Film \<open>7\<close> twice.
\<close>

theorem listed_twice_scraped_twice:
  "film_catalog twice_world = [lit ''7'', lit ''7'']
   \<and> fst (scrape_films twice_world st0) = Inr ()
   \<and> written st0 (snd (scrape_films twice_world st0)) = [(''films'', [demo_film, demo_film])]
   \<and> batch_film_ids [demo_film, demo_film] = [Some (JStr (lit ''7'')), Some (JStr (lit ''7''))]
   \<and> \<not> distinct (batch_film_ids [demo_film, demo_film])"
  using twice_scrape_films
  by (simp add: demo_catalogs batch_film_ids_def demo_film_def field_def dict_get_def lit_def)

text \<open>
  C9, as the code has it. A run that completes writes one batch; the identifiers of its
  Films (of the Concerts of its Seasons) are the identifiers the catalog lists that are
  not in the seen list, in the catalog's order and as often as the catalog lists them. So
  they are pairwise distinct when the catalog lists no identifier twice, and no seen
  identifier is among them. The run leaves the seen lists as they were.
\<close>

theorem once_when_listed_once:
  "(scrape_films world s = (Inr (), s') \<longrightarrow>
      (\<exists>batch. written s s' = [(''films'', batch)] \<and>
         batch_film_ids batch = unseen (film_id_list s) (film_catalog world) \<and>
         (distinct (film_catalog world) \<longrightarrow> distinct (batch_film_ids batch)) \<and>
         (\<forall>i \<in> set (film_id_list s). Some (JStr i) \<notin> set (batch_film_ids batch))) \<and>
      film_id_list s' = film_id_list s \<and> concert_id_list s' = concert_id_list s)
   \<and> (scrape_seasons rp world2 s2 = (Inr (), s2') \<longrightarrow>
      (\<exists>batch. written s2 s2' = [(''seasons'', batch)] \<and>
         batch_concert_ids batch = unseen (concert_id_list s2) (concert_catalog rp world2) \<and>
         (distinct (concert_catalog rp world2) \<longrightarrow> distinct (batch_concert_ids batch)) \<and>
         (\<forall>i \<in> set (concert_id_list s2). Some (JStr i) \<notin> set (batch_concert_ids batch))) \<and>
      film_id_list s2' = film_id_list s2 \<and> concert_id_list s2' = concert_id_list s2)"
proof (intro conjI impI)
  assume run: "scrape_films world s = (Inr (), s')"
  from scrape_films_Inr(1,2) [OF run]
  show "\<exists>batch. written s s' = [(''films'', batch)] \<and>
         batch_film_ids batch = unseen (film_id_list s) (film_catalog world) \<and>
         (distinct (film_catalog world) \<longrightarrow> distinct (batch_film_ids batch)) \<and>
         (\<forall>i \<in> set (film_id_list s). Some (JStr i) \<notin> set (batch_film_ids batch))"
    by (auto simp: distinct_unseen unseen_not_seen)
  from scrape_films_Inr(4,5) [OF run]
  show "film_id_list s' = film_id_list s" and "concert_id_list s' = concert_id_list s"
    by simp_all
next
  assume run: "scrape_seasons rp world2 s2 = (Inr (), s2')"
  from scrape_seasons_Inr(1,2) [OF run]
  show "\<exists>batch. written s2 s2' = [(''seasons'', batch)] \<and>
         batch_concert_ids batch = unseen (concert_id_list s2) (concert_catalog rp world2) \<and>
         (distinct (concert_catalog rp world2) \<longrightarrow> distinct (batch_concert_ids batch)) \<and>
         (\<forall>i \<in> set (concert_id_list s2). Some (JStr i) \<notin> set (batch_concert_ids batch))"
    by (auto simp: distinct_unseen unseen_not_seen)
  from scrape_seasons_Inr(4,5) [OF run]
  show "film_id_list s2' = film_id_list s2" and "concert_id_list s2' = concert_id_list s2"
    by simp_all
qed

theorem once_when_listed_once_witness:
  "fst (scrape_films demo_world demo_start) = Inr ()
   \<and> distinct (film_catalog demo_world)
   \<and> written demo_start (snd (scrape_films demo_world demo_start)) = [(''films'', [demo_film])]
   \<and> batch_film_ids [demo_film] = unseen (film_id_list demo_start) (film_catalog demo_world)
   \<and> distinct (batch_film_ids [demo_film])
   \<and> fst (scrape_seasons no_repr demo_world demo_start) = Inr ()
   \<and> distinct (concert_catalog no_repr demo_world)
   \<and> written demo_start (snd (scrape_seasons no_repr demo_world demo_start)) =
       [(''seasons'', [demo_season])]
   \<and> batch_concert_ids [demo_season] =
       unseen (concert_id_list demo_start) (concert_catalog no_repr demo_world)
   \<and> distinct (batch_concert_ids [demo_season])"
proof -
  have run1: "scrape_films demo_world demo_start =
      (Inr (), snd (scrape_films demo_world demo_start))"
    using demo_scrape_films by (simp add: prod_eq_iff)
  have run2: "scrape_seasons no_repr demo_world demo_start =
      (Inr (), snd (scrape_seasons no_repr demo_world demo_start))"
    using demo_scrape_seasons by (simp add: prod_eq_iff)
  have d: "distinct (film_catalog demo_world)" "distinct (concert_catalog no_repr demo_world)"
    by (simp_all add: demo_catalogs lit_def)
  from once_when_listed_once
    [of demo_world demo_start "snd (scrape_films demo_world demo_start)" no_repr demo_world
        demo_start "snd (scrape_seasons no_repr demo_world demo_start)"]
    run1 run2 d demo_scrape_films demo_scrape_seasons
  show ?thesis by auto
qed

subsection \<open>Fail fast on a failed stream lookup\<close>






subsection \<open>Text normalisation, field by field\<close>







































end
